theory Spec2Isabelle
  imports Complex_Main "HOL-Library.Word" "HOL-Library.Signed_Division" "HOL-Library.Log_Nat"
    "HOL-Library.Sublist"
begin

section \<open>sptsong: a terminal now-playing display\<close>

text \<open>
  The repository holds two variants of the same program: \<^verbatim>\<open>src/main.go\<close> and a shorter
  one, \<^verbatim>\<open>src/unnamed/part_000\<close>.  Definitions without a suffix follow \<^verbatim>\<open>main.go\<close>;
  definitions ending in \<open>_part000\<close> follow the shorter variant where it differs.

  Conventions of the embedding.
  \<^item> Go's \<^verbatim>\<open>int\<close> (terminal sizes, geometry constants, the fill count) is \<open>int\<close>.  Its
    width is 32 or 64 bits depending on the platform; the values here are terminal
    dimensions and a handful of small constants, far from either bound.
    Go's \<^verbatim>\<open>/\<close> truncates toward zero, so it is \<open>sdiv\<close>, not \<open>div\<close>.
  \<^item> Go's \<^verbatim>\<open>int64\<close> and \<^verbatim>\<open>uint64\<close> are \<open>64 word\<close>, read with \<open>sint\<close> or \<open>uint\<close>.
  \<^item> Go strings are \<open>string\<close>.
  \<^item> Calls that leave the program (the session bus, the file system, the network, the
    renderer subprocess, the terminal) take their answer from an explicit environment and
    leave an entry in a list of effects.
\<close>

subsection \<open>Display state and geometry\<close>

text \<open>
  \<^verbatim>\<open>SpotifyDisplay\<close> without the two bus handles and the map \<^verbatim>\<open>lastMetadata\<close>, which no
  function reads or writes.  The shorter variant groups the five layout fields in an embedded
  struct \<^verbatim>\<open>Config\<close>; field access is written the same way in both.
\<close>

record SpotifyDisplay =
  cacheDir :: string
  minWidth :: int
  contentHeight :: int
  margin :: int
  horizontalAlign :: string
  verticalAlign :: string
  currentArtURL :: string

record TerminalSize =
  width :: int
  height :: int
  startX :: int
  startY :: int

text \<open>The state that \<^verbatim>\<open>NewSpotifyDisplay\<close> builds, for a given cache directory.\<close>

definition NewSpotifyDisplay :: "string \<Rightarrow> SpotifyDisplay" where
  "NewSpotifyDisplay dir =
     \<lparr>cacheDir = dir, minWidth = 60, contentHeight = 9, margin = 2,
      horizontalAlign = ''center'', verticalAlign = ''bottom'', currentArtURL = ''''\<rparr>"

text \<open>
  \<^verbatim>\<open>getTerminalSize\<close> of \<^verbatim>\<open>main.go\<close>.  The pair is what \<^verbatim>\<open>termbox.Size()\<close> returned.
  Each \<^verbatim>\<open>switch\<close> has two named cases and a \<^verbatim>\<open>default\<close>.
\<close>

definition getTerminalSize :: "SpotifyDisplay \<Rightarrow> int \<times> int \<Rightarrow> TerminalSize" where
  "getTerminalSize sd sz =
     (let w = fst sz; h = snd sz;
          x = (if horizontalAlign sd = ''left'' then margin sd
               else if horizontalAlign sd = ''right'' then w - minWidth sd - margin sd
               else (w - minWidth sd) sdiv 2);
          y = (if verticalAlign sd = ''top'' then margin sd
               else if verticalAlign sd = ''bottom'' then h - contentHeight sd - margin sd
               else (h - contentHeight sd) sdiv 2)
      in \<lparr>width = w, height = h, startX = x, startY = y\<rparr>)"

text \<open>
  \<^verbatim>\<open>getTerminalSize\<close> of the shorter variant: both origins are first set to a default
  (horizontal centre, vertical bottom) and then overwritten by an \<^verbatim>\<open>if\<close>/\<^verbatim>\<open>else if\<close>.
\<close>

definition getTerminalSize_part000 :: "SpotifyDisplay \<Rightarrow> int \<times> int \<Rightarrow> TerminalSize" where
  "getTerminalSize_part000 sd sz =
     (let w = fst sz; h = snd sz;
          x0 = (w - minWidth sd) sdiv 2;
          y0 = h - contentHeight sd - margin sd;
          x = (if horizontalAlign sd = ''left'' then margin sd
               else if horizontalAlign sd = ''right'' then w - minWidth sd - margin sd
               else x0);
          y = (if verticalAlign sd = ''top'' then margin sd
               else if verticalAlign sd = ''center'' then (h - contentHeight sd) sdiv 2
               else y0)
      in \<lparr>width = w, height = h, startX = x, startY = y\<rparr>)"

subsection \<open>Keyboard\<close>

text \<open>
  The part of \<^verbatim>\<open>termbox.Event\<close> that the program reads.  \<open>Ch\<close> is the rune as a code point.
\<close>

datatype EventType = EventKey | EventOther

datatype Key = KeyArrowUp | KeyArrowDown | KeyArrowLeft | KeyArrowRight | KeyOther

record Event =
  Type :: EventType
  Key :: Key
  Ch :: nat

text \<open>
  \<^verbatim>\<open>handleKeyboard\<close> of \<^verbatim>\<open>main.go\<close>: the \<^verbatim>\<open>switch\<close> on the key, then the separate test
  for the rune \<^verbatim>\<open>'c'\<close>.  The result is the new state and the \<^verbatim>\<open>redraw\<close> flag.
\<close>

definition handleKeyboard :: "SpotifyDisplay \<Rightarrow> Event \<Rightarrow> SpotifyDisplay \<times> bool" where
  "handleKeyboard sd event =
     (let (sd1, redraw1) =
            (case Key event of
               KeyArrowUp \<Rightarrow> (sd\<lparr>verticalAlign := ''top''\<rparr>, True)
             | KeyArrowDown \<Rightarrow> (sd\<lparr>verticalAlign := ''bottom''\<rparr>, True)
             | KeyArrowLeft \<Rightarrow> (sd\<lparr>horizontalAlign := ''left''\<rparr>, True)
             | KeyArrowRight \<Rightarrow> (sd\<lparr>horizontalAlign := ''right''\<rparr>, True)
             | KeyOther \<Rightarrow> (sd, False))
      in if Ch event = of_char CHR ''c''
         then (sd1\<lparr>horizontalAlign := ''center'', verticalAlign := ''center''\<rparr>, True)
         else (sd1, redraw1))"

text \<open>The alignment values that the comments of the struct list.\<close>

definition align_ok :: "SpotifyDisplay \<Rightarrow> bool" where
  "align_ok sd \<longleftrightarrow>
     horizontalAlign sd \<in> {''left'', ''center'', ''right''} \<and>
     verticalAlign sd \<in> {''top'', ''center'', ''bottom''}"

subsection \<open>Values from the session bus\<close>

text \<open>
  What \<^verbatim>\<open>Value()\<close> of a \<^verbatim>\<open>dbus.Variant\<close> can hold, as far as the program tells the cases
  apart.  \<open>VNil\<close> is the value of the zero \<^verbatim>\<open>Variant\<close>, which indexing a Go map with a missing
  key returns; \<open>VOther\<close> stands for every other type.
\<close>

datatype dbus_value =
    VInt64 "64 word"
  | VUint64 "64 word"
  | VString string
  | VStrings "string list"
  | VDict "string \<Rightarrow> dbus_value option"
  | VOther
  | VNil

text \<open>\<^verbatim>\<open>m[k]\<close> on a Go map: the zero value when the key is missing.\<close>

definition go_index :: "(string \<Rightarrow> dbus_value option) \<Rightarrow> string \<Rightarrow> dbus_value" where
  "go_index m k = (case m k of None \<Rightarrow> VNil | Some v \<Rightarrow> v)"

text \<open>
  The answers of the two \<^verbatim>\<open>GetProperty\<close> calls of one tick; \<open>None\<close> is a call that
  returned an error.
\<close>

record Bus =
  metadata_property :: "dbus_value option"
  position_property :: "dbus_value option"

record Metadata =
  Title :: string
  Artist :: string
  Album :: string
  Length :: "64 word"
  Position :: "64 word"
  ArtURL :: string

datatype MetadataError =
    BusError
  | InvalidMetadataFormat
  | UnexpectedLengthType
  | UnexpectedPositionType
  | InvalidArtistFormat

text \<open>
  The type switch that \<^verbatim>\<open>getMetadata\<close> applies to the length and to the position:
  an \<^verbatim>\<open>int64\<close> is taken as it is, a \<^verbatim>\<open>uint64\<close> is converted with \<^verbatim>\<open>int64(v)\<close>, which keeps
  the 64 bits; every other type is the \<^verbatim>\<open>default\<close> case.
\<close>

definition as_int64 :: "dbus_value \<Rightarrow> 64 word option" where
  "as_int64 v = (case v of VInt64 x \<Rightarrow> Some x | VUint64 x \<Rightarrow> Some x | _ \<Rightarrow> None)"

text \<open>Go's \<^verbatim>\<open>/\<close> and \<^verbatim>\<open>%\<close> on \<^verbatim>\<open>int64\<close>, for a non-zero divisor: truncation toward zero.\<close>

definition int64_div :: "64 word \<Rightarrow> 64 word \<Rightarrow> 64 word" where
  "int64_div a b = word_of_int (sint a sdiv sint b)"

definition int64_rem :: "64 word \<Rightarrow> 64 word \<Rightarrow> 64 word" where
  "int64_rem a b = word_of_int (sint a smod sint b)"

text \<open>\<^verbatim>\<open>strings.Trim(s, "\"")\<close>: every leading and every trailing double quote goes.\<close>

definition dquote :: char where
  "dquote = CHR 0x22"

definition trim_quotes :: "string \<Rightarrow> string" where
  "trim_quotes s = rev (dropWhile (\<lambda>c. c = dquote) (rev (dropWhile (\<lambda>c. c = dquote) s)))"

text \<open>\<^verbatim>\<open>strings.HasPrefix(s, p)\<close> is \<open>prefix p s\<close>.  \<^verbatim>\<open>strings.TrimPrefix\<close>:\<close>

definition TrimPrefix :: "string \<Rightarrow> string \<Rightarrow> string" where
  "TrimPrefix s p = (if prefix p s then drop (length p) s else s)"

definition cdn_prefix :: string where
  "cdn_prefix = ''https://i.scdn.co/image/''"

definition fileuri_prefix :: string where
  "fileuri_prefix = ''file://''"

text \<open>
  The art reference computed from the text of the \<^verbatim>\<open>mpris:artUrl\<close> variant: the trim and the
  three-way \<^verbatim>\<open>switch\<close> of \<^verbatim>\<open>main.go\<close> (an \<^verbatim>\<open>if\<close>/\<^verbatim>\<open>else if\<close> in the shorter variant).
\<close>

definition normalizeArtURL :: "string \<Rightarrow> string" where
  "normalizeArtURL raw =
     (let rawURL = trim_quotes raw
      in if prefix cdn_prefix rawURL then rawURL
         else if prefix fileuri_prefix rawURL then TrimPrefix rawURL fileuri_prefix
         else [])"

text \<open>
  \<^verbatim>\<open>Variant.String\<close> of the bus library, which is not part of the repository.  On the zero
  \<^verbatim>\<open>Variant\<close> it indexes the empty signature and panics (\<open>None\<close>).  For every other variant
  it returns a text; \<open>vString\<close> is that text, a parameter, and nothing below depends on
  which text it is.
\<close>

definition Variant_String :: "(dbus_value \<Rightarrow> string) \<Rightarrow> dbus_value \<Rightarrow> string option" where
  "Variant_String vString v = (case v of VNil \<Rightarrow> None | _ \<Rightarrow> Some (vString v))"

text \<open>
  \<^verbatim>\<open>getMetadata\<close> of \<^verbatim>\<open>main.go\<close>: an error, a record, or \<open>None\<close> for a panic.  The checks
  come in the order of the source.  The art reference is computed only when the key
  \<^verbatim>\<open>mpris:artUrl\<close> is present.  The title and the album are read with \<^verbatim>\<open>String()\<close> from the
  indexed map when the record is built, after every check has passed, so a missing
  \<^verbatim>\<open>xesam:title\<close> or \<^verbatim>\<open>xesam:album\<close> key is a panic.  Lines written to the log file are left
  out, here and in the other functions.
\<close>

definition getMetadata :: "(dbus_value \<Rightarrow> string) \<Rightarrow> Bus \<Rightarrow> (MetadataError + Metadata) option" where
  "getMetadata vString bus =
     (case metadata_property bus of
        None \<Rightarrow> Some (Inl BusError)
      | Some variant \<Rightarrow>
          (case variant of
             VDict metadata \<Rightarrow>
               (case position_property bus of
                  None \<Rightarrow> Some (Inl BusError)
                | Some position \<Rightarrow>
                    (case as_int64 (go_index metadata ''mpris:length'') of
                       None \<Rightarrow> Some (Inl UnexpectedLengthType)
                     | Some len \<Rightarrow>
                         (case as_int64 position of
                            None \<Rightarrow> Some (Inl UnexpectedPositionType)
                          | Some pos \<Rightarrow>
                              (case go_index metadata ''xesam:artist'' of
                                 VStrings artists \<Rightarrow>
                                   (case (case metadata ''mpris:artUrl'' of
                                            None \<Rightarrow> Some []
                                          | Some artURLVar \<Rightarrow>
                                              map_option normalizeArtURL (Variant_String vString artURLVar)) of
                                      None \<Rightarrow> None
                                    | Some artURL \<Rightarrow>
                                        (case Variant_String vString (go_index metadata ''xesam:title'') of
                                           None \<Rightarrow> None
                                         | Some title \<Rightarrow>
                                             (case Variant_String vString (go_index metadata ''xesam:album'') of
                                                None \<Rightarrow> None
                                              | Some album \<Rightarrow>
                                                  Some (Inr \<lparr>Title = title,
                                                             Artist = (case artists of
                                                                         [] \<Rightarrow> ''Unknown Artist''
                                                                       | a # _ \<Rightarrow> a),
                                                             Album = album,
                                                             Length = int64_div len 1000000,
                                                             Position = int64_div pos 1000000,
                                                             ArtURL = artURL\<rparr>))))
                               | _ \<Rightarrow> Some (Inl InvalidArtistFormat)))))
           | _ \<Rightarrow> Some (Inl InvalidMetadataFormat)))"

subsection \<open>Time labels\<close>

text \<open>The decimal digits of a natural number, most significant first.\<close>

fun decimal :: "nat \<Rightarrow> string" where
  "decimal n = (if n < 10 then [char_of (48 + n)] else decimal (n div 10) @ [char_of (48 + n mod 10)])"

declare decimal.simps [simp del]

text \<open>
  \<^verbatim>\<open>fmt.Sprintf("%02d", n)\<close>: the digits padded with zeros to width 2, where a minus sign
  takes one of the two places.
\<close>

definition sprintf_02d :: "int \<Rightarrow> string" where
  "sprintf_02d n =
     (if n < 0 then CHR ''-'' # replicate (1 - length (decimal (nat (- n)))) CHR ''0'' @ decimal (nat (- n))
      else replicate (2 - length (decimal (nat n))) CHR ''0'' @ decimal (nat n))"

definition formatTime :: "64 word \<Rightarrow> string" where
  "formatTime seconds =
     (let minutes = int64_div seconds 60;
          remainingSeconds = int64_rem seconds 60
      in sprintf_02d (sint minutes) @ '':'' @ sprintf_02d (sint remainingSeconds))"

subsection \<open>Floating point\<close>

text \<open>
  The progress bar computes with \<^verbatim>\<open>float64\<close>.  A finite \<^verbatim>\<open>float64\<close> is the rational
  number it denotes; every operation computes the exact result and rounds it to the nearest
  number with a 53-bit significand, ties to the even significand, as IEEE 754 binary64
  does.  The exponent is not bounded: the operands are conversions of 64-bit integers, their
  quotient and its product with 40, so every magnitude other than zero lies between
  \<open>2\<^sup>-\<^sup>6\<^sup>3\<close> and \<open>2\<^sup>6\<^sup>9\<close>, where binary64 neither overflows nor is subnormal.  \<open>Finite 0\<close> is
  positive zero; the program produces no negative zero.
\<close>

datatype float64 = Finite rat | PosInf | NegInf | NaN

definition round_half_even :: "rat \<Rightarrow> int" where
  "round_half_even y =
     (let f = \<lfloor>y\<rfloor>; r = y - of_int f
      in if r < 1 / 2 then f else if 1 / 2 < r then f + 1 else if even f then f else f + 1)"

text \<open>For \<open>0 < x\<close>, the \<open>e\<close> with \<open>2\<^sup>e \<le> x < 2\<^sup>e\<^sup>+\<^sup>1\<close>.\<close>

definition binary_exponent :: "rat \<Rightarrow> int" where
  "binary_exponent x =
     (let (a, b) = quotient_of x; d = bitlen a - bitlen b
      in if 2 powi d \<le> x then d else d - 1)"

definition round_binary64 :: "rat \<Rightarrow> rat" where
  "round_binary64 x =
     (if x = 0 then 0
      else let e = binary_exponent \<bar>x\<bar>;
               m = round_half_even (\<bar>x\<bar> / 2 powi (e - 52))
           in sgn x * of_int m * 2 powi (e - 52))"

text \<open>\<^verbatim>\<open>float64(v)\<close> for an \<^verbatim>\<open>int64\<close> and for an \<^verbatim>\<open>int\<close>.\<close>

definition float64_of_int64 :: "64 word \<Rightarrow> float64" where
  "float64_of_int64 v = Finite (round_binary64 (of_int (sint v)))"

definition float64_of_int :: "int \<Rightarrow> float64" where
  "float64_of_int n = Finite (round_binary64 (of_int n))"

text \<open>
  Division and multiplication.  A finite non-zero value divided by zero is an infinity of
  its sign, zero divided by zero is not a number; both propagate through a product with a
  positive finite factor.  The cases that the program does not reach (an infinite or
  undefined divisor or dividend, a product of zero and an infinity) are not a number or
  follow the sign rule, as in IEEE 754.
\<close>

fun float64_div :: "float64 \<Rightarrow> float64 \<Rightarrow> float64" where
  "float64_div (Finite a) (Finite b) =
     (if b = 0 then (if a = 0 then NaN else if 0 < a then PosInf else NegInf)
      else Finite (round_binary64 (a / b)))"
| "float64_div NaN _ = NaN"
| "float64_div _ NaN = NaN"
| "float64_div (Finite a) _ = Finite 0"
| "float64_div PosInf (Finite b) = (if 0 \<le> b then PosInf else NegInf)"
| "float64_div NegInf (Finite b) = (if 0 \<le> b then NegInf else PosInf)"
| "float64_div _ _ = NaN"

fun float64_mul :: "float64 \<Rightarrow> float64 \<Rightarrow> float64" where
  "float64_mul (Finite a) (Finite b) = Finite (round_binary64 (a * b))"
| "float64_mul NaN _ = NaN"
| "float64_mul _ NaN = NaN"
| "float64_mul PosInf (Finite b) = (if b = 0 then NaN else if 0 < b then PosInf else NegInf)"
| "float64_mul NegInf (Finite b) = (if b = 0 then NaN else if 0 < b then NegInf else PosInf)"
| "float64_mul (Finite a) PosInf = (if a = 0 then NaN else if 0 < a then PosInf else NegInf)"
| "float64_mul (Finite a) NegInf = (if a = 0 then NaN else if 0 < a then NegInf else PosInf)"
| "float64_mul PosInf PosInf = PosInf"
| "float64_mul NegInf NegInf = PosInf"
| "float64_mul _ _ = NegInf"

text \<open>
  \<^verbatim>\<open>int(f)\<close>: the fraction is discarded.  When the result does not fit the integer type
  (taken to be 64 bits wide), or \<open>f\<close> is not finite, the conversion succeeds with a value
  that the language leaves to the implementation; \<open>unrep\<close> is that value.
\<close>

definition int_of_float64 :: "(float64 \<Rightarrow> int) \<Rightarrow> float64 \<Rightarrow> int" where
  "int_of_float64 unrep f =
     (case f of
        Finite r \<Rightarrow>
          (let t = (if 0 \<le> r then \<lfloor>r\<rfloor> else \<lceil>r\<rceil>)
           in if - (2 ^ 63) \<le> t \<and> t < 2 ^ 63 then t else unrep f)
      | _ \<Rightarrow> unrep f)"

subsection \<open>Terminal output and the progress bar\<close>

text \<open>
  One entry per write to the terminal or call of an external tool, in program order.  The
  two glyphs of the bar and the header line are not ASCII and have constructors of their
  own.  \<open>DownloadArtwork\<close> records a call of \<^verbatim>\<open>downloadArtwork\<close>; it writes nothing to the
  terminal.
\<close>

datatype glyph = Filled | Empty

datatype effect =
    MoveCursor int int
  | Print string
  | PrintNowPlaying
  | PrintBar "glyph list"
  | ClearScreen
  | SaveCursor
  | RestoreCursor
  | RunChafa string
  | DownloadArtwork string

fun is_download :: "effect \<Rightarrow> bool" where
  "is_download (DownloadArtwork _) = True"
| "is_download _ = False"

text \<open>\<^verbatim>\<open>strings.Repeat(s, count)\<close> panics on a negative count; \<open>None\<close> is the panic.\<close>

definition Repeat :: "'a list \<Rightarrow> int \<Rightarrow> 'a list option" where
  "Repeat s n = (if n < 0 then None else Some (concat (replicate (nat n) s)))"

text \<open>
  The fill count of \<^verbatim>\<open>drawProgressBar\<close> in \<^verbatim>\<open>main.go\<close>: the local variable \<^verbatim>\<open>progress\<close>
  after the two clamping tests.  It starts at zero and is computed only for a positive
  length.
\<close>

definition drawProgressBar_progress :: "(float64 \<Rightarrow> int) \<Rightarrow> Metadata \<Rightarrow> int" where
  "drawProgressBar_progress unrep metadata =
     (let w = 40
      in if 0 < sint (Length metadata)
         then (let p0 = int_of_float64 unrep
                          (float64_mul
                             (float64_div (float64_of_int64 (Position metadata))
                                          (float64_of_int64 (Length metadata)))
                             (float64_of_int w));
                   p1 = (if p0 < 0 then 0 else p0);
                   p2 = (if w < p1 then w else p1)
               in p2)
         else 0)"

text \<open>
  The same in the shorter variant: no test of the length, and the clamp is one
  \<^verbatim>\<open>if\<close>/\<^verbatim>\<open>else if\<close>.
\<close>

definition drawProgressBar_progress_part000 :: "(float64 \<Rightarrow> int) \<Rightarrow> Metadata \<Rightarrow> int" where
  "drawProgressBar_progress_part000 unrep metadata =
     (let w = 40;
          p0 = int_of_float64 unrep
                 (float64_mul
                    (float64_div (float64_of_int64 (Position metadata))
                                 (float64_of_int64 (Length metadata)))
                    (float64_of_int w))
      in if p0 < 0 then 0 else if w < p0 then w else p0)"

text \<open>The bar: \<^verbatim>\<open>progress\<close> filled glyphs, then \<^verbatim>\<open>width - progress\<close> empty ones.\<close>

definition drawProgressBar_bar :: "(float64 \<Rightarrow> int) \<Rightarrow> Metadata \<Rightarrow> glyph list option" where
  "drawProgressBar_bar unrep metadata =
     (let progress = drawProgressBar_progress unrep metadata
      in case Repeat [Filled] progress of
           None \<Rightarrow> None
         | Some filled \<Rightarrow>
             (case Repeat [Empty] (40 - progress) of
                None \<Rightarrow> None
              | Some rest \<Rightarrow> Some (filled @ rest)))"

text \<open>
  \<^verbatim>\<open>drawProgressBar\<close> of \<^verbatim>\<open>main.go\<close>: the two rows are blanked, then the bar and the
  centred time label are written.  \<open>None\<close> is a panic.
\<close>

definition drawProgressBar :: "(float64 \<Rightarrow> int) \<Rightarrow> Metadata \<Rightarrow> TerminalSize \<Rightarrow> effect list option" where
  "drawProgressBar unrep metadata term =
     (case drawProgressBar_bar unrep metadata of
        None \<Rightarrow> None
      | Some bar \<Rightarrow>
          (let currentTime = formatTime (Position metadata);
               totalTime = formatTime (Length metadata);
               timeText = currentTime @ ''/'' @ totalTime
           in Some
                [MoveCursor (startX term + 20) (startY term + 4),
                 Print (replicate 60 CHR '' ''),
                 MoveCursor (startX term + 20) (startY term + 5),
                 Print (replicate 60 CHR '' ''),
                 MoveCursor (startX term + 20) (startY term + 4),
                 PrintBar bar,
                 MoveCursor (startX term + 20 + (40 - int (length timeText)) sdiv 2) (startY term + 5),
                 Print timeText]))"

text \<open>
  The fill count as the specification words it, for comparison: the quotient of position and
  length times the width, rounded to the nearest integer and clamped to the width.
\<close>

definition spec_progress :: "int \<Rightarrow> int \<Rightarrow> int" where
  "spec_progress positionSeconds lengthSeconds =
     max 0 (min 40 (round (of_int positionSeconds / of_int lengthSeconds * 40 :: rat)))"

subsection \<open>Artwork\<close>

text \<open>
  What the file system, the network and the renderer answer during one tick: whether
  \<^verbatim>\<open>os.Open\<close>, \<^verbatim>\<open>os.Create\<close>, \<^verbatim>\<open>io.Copy\<close> and \<^verbatim>\<open>http.NewRequest\<close> succeed, the status code of
  the response (\<open>None\<close> when the request fails), the size that \<^verbatim>\<open>os.Stat\<close> reports (\<open>None\<close>
  when it fails), the path of the renderer (\<open>None\<close> when it is not installed) and whether the
  renderer exits with success.
\<close>

record Artwork =
  open_ok :: bool
  create_ok :: bool
  copy_ok :: bool
  request_ok :: bool
  http_status :: "nat option"
  stat_size :: "int option"
  chafa_path :: "string option"
  chafa_ok :: bool

datatype ArtworkError =
    NoArtworkURL
  | OpenFailed
  | CreateFailed
  | CopyFailed
  | RequestFailed
  | DownloadFailed
  | HTTPStatus nat
  | SaveFailed

datatype DisplayError = NoImagePath | StatFailed | EmptyFile | ChafaMissing | ChafaFailed

text \<open>
  \<^verbatim>\<open>downloadArtwork\<close> of \<^verbatim>\<open>main.go\<close>.  The cache file is \<^verbatim>\<open>filepath.Join(cacheDir, ...)\<close>, which
  for the clean, non-empty directory that \<^verbatim>\<open>NewSpotifyDisplay\<close> stores is the directory, a
  slash and the file name.
\<close>

definition downloadArtwork :: "SpotifyDisplay \<Rightarrow> string \<Rightarrow> Artwork \<Rightarrow> ArtworkError + string" where
  "downloadArtwork sd artURL env =
     (if artURL = [] then Inl NoArtworkURL
      else let imagePath = cacheDir sd @ ''/current_artwork.png''
           in if prefix ''/'' artURL
              then (if \<not> open_ok env then Inl OpenFailed
                    else if \<not> create_ok env then Inl CreateFailed
                    else if \<not> copy_ok env then Inl CopyFailed
                    else Inr imagePath)
              else (if \<not> request_ok env then Inl RequestFailed
                    else case http_status env of
                           None \<Rightarrow> Inl DownloadFailed
                         | Some code \<Rightarrow>
                             if code \<noteq> 200 then Inl (HTTPStatus code)
                             else if \<not> create_ok env then Inl CreateFailed
                             else if \<not> copy_ok env then Inl SaveFailed
                             else Inr imagePath))"

text \<open>
  \<^verbatim>\<open>displayImage\<close> of \<^verbatim>\<open>main.go\<close>: the terminal writes it makes and the error it returns.
\<close>

definition displayImage :: "string \<Rightarrow> int \<Rightarrow> int \<Rightarrow> Artwork \<Rightarrow> effect list \<times> DisplayError option" where
  "displayImage imagePath x y env =
     (if imagePath = [] then ([], Some NoImagePath)
      else case stat_size env of
             None \<Rightarrow> ([], Some StatFailed)
           | Some sz \<Rightarrow>
               if sz = 0 then ([], Some EmptyFile)
               else (case chafa_path env of
                       None \<Rightarrow> ([], Some ChafaMissing)
                     | Some chafaPath \<Rightarrow>
                         ([SaveCursor, MoveCursor x y, RunChafa imagePath, RestoreCursor],
                          if chafa_ok env then None else Some ChafaFailed)))"

subsection \<open>The event loop\<close>

text \<open>Everything outside the program that one timer tick consults.\<close>

record World =
  term_size :: "int \<times> int"
  bus :: Bus
  artwork :: Artwork

text \<open>
  The \<^verbatim>\<open>ticker.C\<close> case of \<^verbatim>\<open>Run\<close> in \<^verbatim>\<open>main.go\<close>: the new state and the effects of the tick,
  or \<open>None\<close> for a panic.  A panic of \<^verbatim>\<open>getMetadata\<close> is a panic of the tick; an error that
  it returns ends the tick at \<^verbatim>\<open>continue\<close>.  The cache slot \<^verbatim>\<open>currentArtURL\<close> is assigned
  before \<^verbatim>\<open>downloadArtwork\<close> is called.
\<close>

definition tick ::
  "(dbus_value \<Rightarrow> string) \<Rightarrow> (float64 \<Rightarrow> int) \<Rightarrow> SpotifyDisplay \<Rightarrow> World \<Rightarrow> (SpotifyDisplay \<times> effect list) option"
where
  "tick vString unrep sd world =
     (let term = getTerminalSize sd (term_size world)
      in case getMetadata vString (bus world) of
           None \<Rightarrow> None
         | Some (Inl err) \<Rightarrow> Some (sd, [])
         | Some (Inr metadata) \<Rightarrow>
             (case drawProgressBar unrep metadata term of
                None \<Rightarrow> None
              | Some progressBar \<Rightarrow>
                  (let frame =
                         [MoveCursor (startX term + 20) (startY term),
                          PrintNowPlaying,
                          MoveCursor (startX term + 20) (startY term + 1),
                          Print (Title metadata),
                          MoveCursor (startX term + 20) (startY term + 2),
                          Print (''by '' @ Artist metadata)] @ progressBar
                   in if ArtURL metadata \<noteq> currentArtURL sd \<and> ArtURL metadata \<noteq> []
                      then (let sd' = sd\<lparr>currentArtURL := ArtURL metadata\<rparr>
                            in case downloadArtwork sd' (ArtURL metadata) (artwork world) of
                                 Inl err \<Rightarrow> Some (sd', frame @ [DownloadArtwork (ArtURL metadata)])
                               | Inr imagePath \<Rightarrow>
                                   if imagePath \<noteq> []
                                   then Some (sd', frame @ [DownloadArtwork (ArtURL metadata)]
                                                @ fst (displayImage imagePath (startX term) (startY term) (artwork world)))
                                   else Some (sd', frame @ [DownloadArtwork (ArtURL metadata)]))
                      else Some (sd, frame))))"

text \<open>
  What the \<^verbatim>\<open>select\<close> of \<^verbatim>\<open>Run\<close> can receive, and the two states of the loop:
  \<open>Terminating\<close> is a \<^verbatim>\<open>return nil\<close>.
\<close>

datatype Input = KeyEvent Event | Tick World | Signal

datatype Status = Running | Terminating

definition step ::
  "(dbus_value \<Rightarrow> string) \<Rightarrow> (float64 \<Rightarrow> int) \<Rightarrow> SpotifyDisplay \<Rightarrow> Input
     \<Rightarrow> (Status \<times> SpotifyDisplay \<times> effect list) option"
where
  "step vString unrep sd i =
     (case i of
        KeyEvent event \<Rightarrow>
          if Type event = EventKey
          then (if Ch event = of_char CHR ''q'' then Some (Terminating, sd, [])
                else (let (sd', redraw) = handleKeyboard sd event
                      in if redraw then Some (Running, sd'\<lparr>currentArtURL := []\<rparr>, [ClearScreen])
                         else Some (Running, sd', [])))
          else Some (Running, sd, [])
      | Tick world \<Rightarrow>
          (case tick vString unrep sd world of
             None \<Rightarrow> None
           | Some (sd', out) \<Rightarrow> Some (Running, sd', out))
      | Signal \<Rightarrow> Some (Terminating, sd, []))"

text \<open>The loop over the inputs in the order in which \<^verbatim>\<open>select\<close> delivers them.\<close>

fun run ::
  "(dbus_value \<Rightarrow> string) \<Rightarrow> (float64 \<Rightarrow> int) \<Rightarrow> SpotifyDisplay \<Rightarrow> Input list
     \<Rightarrow> (Status \<times> SpotifyDisplay \<times> effect list) option"
where
  "run vString unrep sd [] = Some (Running, sd, [])"
| "run vString unrep sd (i # is) =
     (case step vString unrep sd i of
        None \<Rightarrow> None
      | Some (Terminating, sd', out) \<Rightarrow> Some (Terminating, sd', out)
      | Some (Running, sd', out) \<Rightarrow>
          (case run vString unrep sd' is of
             None \<Rightarrow> None
           | Some (st, sd'', out') \<Rightarrow> Some (st, sd'', out @ out')))"

subsection \<open>The tick of the shorter variant\<close>

text \<open>
  \<^verbatim>\<open>getMetadata\<close> of the shorter variant.  Only the first bus query can fail with an error.
  The two type assertions have no second result, so a metadata value that is no dictionary
  and an artist entry that is no string list are panics (\<open>None\<close>).  A failed position query
  leaves the zero variant.  A length or position of another type stays zero.  The art
  reference is computed from \<^verbatim>\<open>String()\<close> of the indexed entry without a test for the key,
  so a missing \<^verbatim>\<open>mpris:artUrl\<close> key is a panic, as is a missing \<^verbatim>\<open>xesam:title\<close> key.  The
  record of this variant has no album; the field is left empty.
\<close>

definition getMetadata_part000 :: "(dbus_value \<Rightarrow> string) \<Rightarrow> Bus \<Rightarrow> (MetadataError + Metadata) option" where
  "getMetadata_part000 vString b =
     (case metadata_property b of
        None \<Rightarrow> Some (Inl BusError)
      | Some variant \<Rightarrow>
          (case variant of
             VDict metadata \<Rightarrow>
               (let position = (case position_property b of None \<Rightarrow> VNil | Some v \<Rightarrow> v)
                in case go_index metadata ''xesam:artist'' of
                     VStrings artists \<Rightarrow>
                       (case Variant_String vString (go_index metadata ''mpris:artUrl'') of
                          None \<Rightarrow> None
                        | Some raw \<Rightarrow>
                            (let artist = (case artists of [] \<Rightarrow> ''Unknown Artist'' | a # _ \<Rightarrow> a);
                                 artURL = normalizeArtURL raw;
                                 len = (case as_int64 (go_index metadata ''mpris:length'') of
                                          None \<Rightarrow> 0 | Some v \<Rightarrow> v);
                                 pos = (case as_int64 position of None \<Rightarrow> 0 | Some v \<Rightarrow> v)
                             in case Variant_String vString (go_index metadata ''xesam:title'') of
                                  None \<Rightarrow> None
                                | Some title \<Rightarrow>
                                    Some (Inr \<lparr>Title = title,
                                               Artist = artist,
                                               Album = [],
                                               Length = int64_div len 1000000,
                                               Position = int64_div pos 1000000,
                                               ArtURL = artURL\<rparr>)))
                   | _ \<Rightarrow> None)
           | _ \<Rightarrow> None))"

text \<open>
  \<^verbatim>\<open>drawProgressBar\<close> of the shorter variant.  It writes the escape sequence for a row and a
  column itself; \<open>MoveCursor x y\<close> is the sequence for row \<open>y + 1\<close> and column \<open>x + 1\<close>.
\<close>

definition drawProgressBar_part000 :: "(float64 \<Rightarrow> int) \<Rightarrow> Metadata \<Rightarrow> TerminalSize \<Rightarrow> effect list option" where
  "drawProgressBar_part000 unrep metadata term =
     (let progress = drawProgressBar_progress_part000 unrep metadata
      in case Repeat [Filled] progress of
           None \<Rightarrow> None
         | Some filled \<Rightarrow>
             (case Repeat [Empty] (40 - progress) of
                None \<Rightarrow> None
              | Some rest \<Rightarrow>
                  (let timeText = formatTime (Position metadata) @ ''/'' @ formatTime (Length metadata)
                   in Some
                        [MoveCursor (startX term + 20 - 1) (startY term + 5 - 1),
                         Print (replicate 60 CHR '' ''),
                         MoveCursor (startX term + 20 - 1) (startY term + 6 - 1),
                         Print (replicate 60 CHR '' ''),
                         MoveCursor (startX term + 20 - 1) (startY term + 5 - 1),
                         PrintBar (filled @ rest),
                         MoveCursor (startX term + 20 + (40 - int (length timeText)) sdiv 2 - 1)
                                    (startY term + 6 - 1),
                         Print timeText])))"

text \<open>
  \<^verbatim>\<open>downloadArtwork\<close> of the shorter variant: the path and the error it returns, or \<open>None\<close>
  for a panic.  The error of \<^verbatim>\<open>os.Open\<close> is overwritten by that of \<^verbatim>\<open>os.Create\<close>; copying
  from the file that failed to open then fails.  The error of \<^verbatim>\<open>http.NewRequest\<close> is
  dropped and the request, which is nil after a failure, is dereferenced.  The status code
  of the response is not read.
\<close>

definition downloadArtwork_part000 ::
  "SpotifyDisplay \<Rightarrow> string \<Rightarrow> Artwork \<Rightarrow> (string \<times> ArtworkError option) option"
where
  "downloadArtwork_part000 sd artURL env =
     (if artURL = [] then Some ([], None)
      else let imagePath = cacheDir sd @ ''/current_artwork.png''
           in if prefix ''/'' artURL
              then (if \<not> create_ok env then Some ([], Some CreateFailed)
                    else if \<not> open_ok env \<or> \<not> copy_ok env then Some (imagePath, Some CopyFailed)
                    else Some (imagePath, None))
              else (if \<not> request_ok env then None
                    else case http_status env of
                           None \<Rightarrow> Some ([], Some DownloadFailed)
                         | Some code \<Rightarrow>
                             if \<not> create_ok env then Some ([], Some CreateFailed)
                             else if \<not> copy_ok env then Some (imagePath, Some CopyFailed)
                             else Some (imagePath, None)))"

text \<open>
  \<^verbatim>\<open>displayImage\<close> of the shorter variant: it fails only when the renderer is not installed
  and ignores how the renderer exits.
\<close>

definition displayImage_part000 :: "string \<Rightarrow> int \<Rightarrow> int \<Rightarrow> Artwork \<Rightarrow> effect list \<times> DisplayError option" where
  "displayImage_part000 imagePath x y env =
     (case chafa_path env of
        None \<Rightarrow> ([], Some ChafaMissing)
      | Some chafaPath \<Rightarrow> ([SaveCursor, MoveCursor x y, RunChafa imagePath, RestoreCursor], None))"

text \<open>
  The \<^verbatim>\<open>ticker.C\<close> case of \<^verbatim>\<open>Run\<close> in the shorter variant.  As in \<^verbatim>\<open>main.go\<close>, the cache slot
  is assigned before the download; the image is displayed when the download returned no
  error.
\<close>

definition tick_part000 ::
  "(dbus_value \<Rightarrow> string) \<Rightarrow> (float64 \<Rightarrow> int) \<Rightarrow> SpotifyDisplay \<Rightarrow> World \<Rightarrow> (SpotifyDisplay \<times> effect list) option"
where
  "tick_part000 vString unrep sd world =
     (let term = getTerminalSize_part000 sd (term_size world)
      in case getMetadata_part000 vString (bus world) of
           None \<Rightarrow> None
         | Some (Inl err) \<Rightarrow> Some (sd, [])
         | Some (Inr metadata) \<Rightarrow>
             (case drawProgressBar_part000 unrep metadata term of
                None \<Rightarrow> None
              | Some progressBar \<Rightarrow>
                  (let frame =
                         [MoveCursor (startX term + 20 - 1) (startY term + 1 - 1),
                          PrintNowPlaying,
                          MoveCursor (startX term + 20 - 1) (startY term + 2 - 1),
                          Print (Title metadata),
                          MoveCursor (startX term + 20 - 1) (startY term + 3 - 1),
                          Print (''by '' @ Artist metadata)] @ progressBar
                   in if ArtURL metadata \<noteq> currentArtURL sd \<and> ArtURL metadata \<noteq> []
                      then (let sd' = sd\<lparr>currentArtURL := ArtURL metadata\<rparr>
                            in case downloadArtwork_part000 sd' (ArtURL metadata) (artwork world) of
                                 None \<Rightarrow> None
                               | Some (imagePath, Some err) \<Rightarrow>
                                   Some (sd', frame @ [DownloadArtwork (ArtURL metadata)])
                               | Some (imagePath, None) \<Rightarrow>
                                   Some (sd', frame @ [DownloadArtwork (ArtURL metadata)]
                                           @ fst (displayImage_part000 imagePath (startX term) (startY term)
                                                    (artwork world))))
                      else Some (sd, frame))))"

text \<open>
  Consecutive timer ticks of the shorter variant: the loop of its \<^verbatim>\<open>Run\<close> while no key and no
  signal arrives.
\<close>

fun ticks_part000 ::
  "(dbus_value \<Rightarrow> string) \<Rightarrow> (float64 \<Rightarrow> int) \<Rightarrow> SpotifyDisplay \<Rightarrow> World list
     \<Rightarrow> (SpotifyDisplay \<times> effect list) option"
where
  "ticks_part000 vString unrep sd [] = Some (sd, [])"
| "ticks_part000 vString unrep sd (w # ws) =
     (case tick_part000 vString unrep sd w of
        None \<Rightarrow> None
      | Some (sd', out) \<Rightarrow>
          (case ticks_part000 vString unrep sd' ws of
             None \<Rightarrow> None
           | Some (sd'', out') \<Rightarrow> Some (sd'', out @ out')))"

subsection \<open>Concrete inputs for the examples\<close>

text \<open>
  A rendering of variants that puts strings in double quotes.  Two conversions of a
  \<^verbatim>\<open>float64\<close> that the integer type cannot represent: one that returns the least 64-bit
  integer for every such value, as the conversion instruction of amd64 does, and one that
  saturates (the greatest integer above the range, the least below it, zero for what is
  not a number), as that of arm64 does.
\<close>

definition quoted :: "string \<Rightarrow> string" where
  "quoted s = dquote # s @ [dquote]"

definition example_vString :: "dbus_value \<Rightarrow> string" where
  "example_vString v = (case v of VString s \<Rightarrow> quoted s | _ \<Rightarrow> [])"

definition example_unrep :: "float64 \<Rightarrow> int" where
  "example_unrep f = - (2 ^ 63)"

definition saturating_unrep :: "float64 \<Rightarrow> int" where
  "saturating_unrep f =
     (case f of
        Finite r \<Rightarrow> (if r < 0 then - (2 ^ 63) else 2 ^ 63 - 1)
      | PosInf \<Rightarrow> 2 ^ 63 - 1
      | NegInf \<Rightarrow> - (2 ^ 63)
      | NaN \<Rightarrow> 0)"

text \<open>
  The bus answers for a track with title, artist, album and art URL, with a given length
  and position (both in microseconds); the same without the art URL entry; and a metadata
  property that is a string, not a dictionary.
\<close>

definition example_bus :: "dbus_value \<Rightarrow> dbus_value \<Rightarrow> string \<Rightarrow> Bus" where
  "example_bus len pos url =
     \<lparr>metadata_property =
        Some (VDict (\<lambda>k. if k = ''xesam:title'' then Some (VString ''Song'')
                         else if k = ''xesam:artist'' then Some (VStrings [''Band''])
                         else if k = ''xesam:album'' then Some (VString ''Album'')
                         else if k = ''mpris:length'' then Some len
                         else if k = ''mpris:artUrl'' then Some (VString url)
                         else None)),
      position_property = Some pos\<rparr>"

definition example_bus_no_art :: Bus where
  "example_bus_no_art =
     \<lparr>metadata_property =
        Some (VDict (\<lambda>k. if k = ''xesam:title'' then Some (VString ''Song'')
                         else if k = ''xesam:artist'' then Some (VStrings [''Band''])
                         else if k = ''xesam:album'' then Some (VString ''Album'')
                         else if k = ''mpris:length'' then Some (VUint64 200000000)
                         else None)),
      position_property = Some (VInt64 125000000)\<rparr>"

definition malformed_bus :: Bus where
  "malformed_bus =
     \<lparr>metadata_property = Some (VString ''no dictionary''),
      position_property = Some (VInt64 125000000)\<rparr>"

definition example_artwork :: "bool \<Rightarrow> Artwork" where
  "example_artwork ok =
     \<lparr>open_ok = ok, create_ok = True, copy_ok = True, request_ok = True,
      http_status = (if ok then Some 200 else Some 404), stat_size = Some 1024,
      chafa_path = Some ''/usr/bin/chafa'', chafa_ok = True\<rparr>"

definition example_world :: "string \<Rightarrow> bool \<Rightarrow> World" where
  "example_world url ok =
     \<lparr>term_size = (80, 24),
      bus = example_bus (VUint64 200000000) (VInt64 125000000) url,
      artwork = example_artwork ok\<rparr>"

definition failing_world :: World where
  "failing_world =
     \<lparr>term_size = (80, 24),
      bus = \<lparr>metadata_property = None, position_property = None\<rparr>,
      artwork = example_artwork True\<rparr>"

definition malformed_world :: World where
  "malformed_world =
     \<lparr>term_size = (80, 24), bus = malformed_bus, artwork = example_artwork True\<rparr>"

text \<open>
  Two more answers of the bus for the example track: one whose artist entry is a string, not
  a list of strings, and one whose length is a string, not an integer.
\<close>

definition artist_world :: World where
  "artist_world =
     \<lparr>term_size = (80, 24),
      bus = \<lparr>metadata_property =
               Some (VDict (\<lambda>k. if k = ''xesam:title'' then Some (VString ''Song'')
                                else if k = ''xesam:artist'' then Some (VString ''Band'')
                                else if k = ''xesam:album'' then Some (VString ''Album'')
                                else if k = ''mpris:length'' then Some (VUint64 200000000)
                                else if k = ''mpris:artUrl'' then Some (VString ''file:///a.png'')
                                else None)),
             position_property = Some (VInt64 125000000)\<rparr>,
      artwork = example_artwork True\<rparr>"

definition untyped_length_world :: World where
  "untyped_length_world =
     \<lparr>term_size = (80, 24),
      bus = example_bus (VString ''long'') (VInt64 125000000) ''file:///a.png'',
      artwork = example_artwork True\<rparr>"

text \<open>A press of a key that carries no rune.\<close>

definition key :: "Key \<Rightarrow> Input" where
  "key k = KeyEvent \<lparr>Type = EventKey, Key = k, Ch = 0\<rparr>"

section \<open>Properties\<close>

subsection \<open>Geometry\<close>

lemma sdiv_2_int: "(d::int) sdiv 2 = (if 0 \<le> d then d div 2 else - ((- d) div 2))"
  by (simp add: signed_divide_int_def sgn_if)

lemma handleKeyboard_align_ok: "align_ok sd \<Longrightarrow> align_ok (fst (handleKeyboard sd e))"
  by (cases "Key e") (simp_all add: handleKeyboard_def align_ok_def)

lemma NewSpotifyDisplay_align_ok: "align_ok (NewSpotifyDisplay dir)"
  by (simp add: NewSpotifyDisplay_def align_ok_def)

text \<open>
  Claim C4.  For every terminal size and every state, \<^verbatim>\<open>getTerminalSize\<close> of \<^verbatim>\<open>main.go\<close>
  returns the margin for \<open>left\<close> and \<open>top\<close>, the size minus the content size minus the margin
  for \<open>right\<close> and \<open>bottom\<close>, and half the difference of size and content size, truncated
  toward zero, for \<open>center\<close>.  Nothing is clamped: under \<open>right\<close> and \<open>bottom\<close> a terminal
  smaller than content plus margin has a negative origin, and under \<open>center\<close> one that is at
  least two cells smaller than the content.
\<close>

theorem getTerminalSize_origin:
  "(horizontalAlign sd = ''left'' \<longrightarrow> startX (getTerminalSize sd (w, h)) = margin sd) \<and>
   (horizontalAlign sd = ''right'' \<longrightarrow> startX (getTerminalSize sd (w, h)) = w - minWidth sd - margin sd) \<and>
   (horizontalAlign sd = ''center'' \<longrightarrow>
      startX (getTerminalSize sd (w, h)) = (w - minWidth sd) sdiv 2 \<and>
      startX (getTerminalSize sd (w, h)) =
        (if minWidth sd \<le> w then (w - minWidth sd) div 2 else - ((minWidth sd - w) div 2))) \<and>
   (verticalAlign sd = ''top'' \<longrightarrow> startY (getTerminalSize sd (w, h)) = margin sd) \<and>
   (verticalAlign sd = ''bottom'' \<longrightarrow> startY (getTerminalSize sd (w, h)) = h - contentHeight sd - margin sd) \<and>
   (verticalAlign sd = ''center'' \<longrightarrow>
      startY (getTerminalSize sd (w, h)) = (h - contentHeight sd) sdiv 2 \<and>
      startY (getTerminalSize sd (w, h)) =
        (if contentHeight sd \<le> h then (h - contentHeight sd) div 2 else - ((contentHeight sd - h) div 2))) \<and>
   (horizontalAlign sd = ''right'' \<and> w < minWidth sd + margin sd \<longrightarrow> startX (getTerminalSize sd (w, h)) < 0) \<and>
   (horizontalAlign sd = ''center'' \<and> w + 2 \<le> minWidth sd \<longrightarrow> startX (getTerminalSize sd (w, h)) < 0) \<and>
   (verticalAlign sd = ''bottom'' \<and> h < contentHeight sd + margin sd \<longrightarrow> startY (getTerminalSize sd (w, h)) < 0) \<and>
   (verticalAlign sd = ''center'' \<and> h + 2 \<le> contentHeight sd \<longrightarrow> startY (getTerminalSize sd (w, h)) < 0)"
  by (auto simp add: getTerminalSize_def sdiv_2_int)

text \<open>
  The three alignments on each axis at a terminal of 10 by 5 cells (smaller than the
  content), at 57 by 6 (three cells short: the quotient \<open>-3 / 2\<close> is \<open>-1\<close>, not \<open>-2\<close>) and
  at 80 by 24.
\<close>

theorem getTerminalSize_origin_witness:
  "startX (getTerminalSize ((NewSpotifyDisplay ''/c'')\<lparr>horizontalAlign := ''left'', verticalAlign := ''top''\<rparr>) (10, 5)) = 2 \<and>
   startY (getTerminalSize ((NewSpotifyDisplay ''/c'')\<lparr>horizontalAlign := ''left'', verticalAlign := ''top''\<rparr>) (10, 5)) = 2 \<and>
   startX (getTerminalSize ((NewSpotifyDisplay ''/c'')\<lparr>horizontalAlign := ''right'', verticalAlign := ''bottom''\<rparr>) (10, 5)) = - 52 \<and>
   startY (getTerminalSize ((NewSpotifyDisplay ''/c'')\<lparr>horizontalAlign := ''right'', verticalAlign := ''bottom''\<rparr>) (10, 5)) = - 6 \<and>
   startX (getTerminalSize ((NewSpotifyDisplay ''/c'')\<lparr>horizontalAlign := ''center'', verticalAlign := ''center''\<rparr>) (57, 6)) = - 1 \<and>
   startY (getTerminalSize ((NewSpotifyDisplay ''/c'')\<lparr>horizontalAlign := ''center'', verticalAlign := ''center''\<rparr>) (57, 6)) = - 1 \<and>
   startX (getTerminalSize ((NewSpotifyDisplay ''/c'')\<lparr>horizontalAlign := ''center'', verticalAlign := ''center''\<rparr>) (80, 24)) = 10 \<and>
   startY (getTerminalSize ((NewSpotifyDisplay ''/c'')\<lparr>horizontalAlign := ''center'', verticalAlign := ''center''\<rparr>) (80, 24)) = 7"
  using getTerminalSize_origin [of "(NewSpotifyDisplay ''/c'')\<lparr>horizontalAlign := ''left'', verticalAlign := ''top''\<rparr>" 10 5]
        getTerminalSize_origin [of "(NewSpotifyDisplay ''/c'')\<lparr>horizontalAlign := ''right'', verticalAlign := ''bottom''\<rparr>" 10 5]
        getTerminalSize_origin [of "(NewSpotifyDisplay ''/c'')\<lparr>horizontalAlign := ''center'', verticalAlign := ''center''\<rparr>" 57 6]
        getTerminalSize_origin [of "(NewSpotifyDisplay ''/c'')\<lparr>horizontalAlign := ''center'', verticalAlign := ''center''\<rparr>" 80 24]
  by (simp add: NewSpotifyDisplay_def)

subsection \<open>The progress bar never panics\<close>

lemma Repeat_single: "0 \<le> n \<Longrightarrow> Repeat [x] n = Some (replicate (nat n) x)"
proof -
  have "concat (replicate k [x]) = replicate k x" for k
    by (induction k) simp_all
  then show "0 \<le> n \<Longrightarrow> Repeat [x] n = Some (replicate (nat n) x)"
    by (simp add: Repeat_def)
qed

lemma drawProgressBar_progress_range:
  "0 \<le> drawProgressBar_progress unrep metadata \<and> drawProgressBar_progress unrep metadata \<le> 40"
  by (simp add: drawProgressBar_progress_def Let_def)

lemma drawProgressBar_bar_eq:
  "drawProgressBar_bar unrep metadata =
     Some (replicate (nat (drawProgressBar_progress unrep metadata)) Filled @
           replicate (nat (40 - drawProgressBar_progress unrep metadata)) Empty)"
  using drawProgressBar_progress_range [of unrep metadata]
  by (simp add: drawProgressBar_bar_def Let_def Repeat_single)

lemma drawProgressBar_total: "\<exists>out. drawProgressBar unrep metadata term = Some out"
  by (simp add: drawProgressBar_def drawProgressBar_bar_eq Let_def)

lemma drawProgressBar_no_download:
  "drawProgressBar unrep metadata term = Some bar \<Longrightarrow> filter is_download bar = []"
  by (auto simp add: drawProgressBar_def Let_def split: option.splits)

lemma displayImage_no_download:
  "filter is_download (fst (displayImage imagePath x y env)) = []"
  by (simp add: displayImage_def split: option.splits)

subsection \<open>One tick\<close>

text \<open>A tick of \<^verbatim>\<open>main.go\<close> panics exactly when \<^verbatim>\<open>getMetadata\<close> does.\<close>

lemma tick_None_iff:
  "tick vString unrep sd world = None \<longleftrightarrow> getMetadata vString (bus world) = None"
proof (cases "getMetadata vString (bus world)")
  case None
  then show ?thesis by (simp add: tick_def)
next
  case (Some res)
  show ?thesis
  proof (cases res)
    case (Inl err)
    with Some show ?thesis by (simp add: tick_def)
  next
    case (Inr metadata)
    obtain bar where "drawProgressBar unrep metadata (getTerminalSize sd (term_size world)) = Some bar"
      using drawProgressBar_total by blast
    with Some Inr show ?thesis
      by (simp add: tick_def Let_def split: sum.splits)
  qed
qed

lemma tick_metadata_failure:
  "getMetadata vString (bus world) = Some (Inl err) \<Longrightarrow> tick vString unrep sd world = Some (sd, [])"
  by (simp add: tick_def)

text \<open>
  What a tick with metadata does to the cache slot and how often it calls
  \<^verbatim>\<open>downloadArtwork\<close>, in one statement.
\<close>

lemma tick_cases:
  assumes "tick vString unrep sd world = Some (sd', out)"
    and "getMetadata vString (bus world) = Some (Inr metadata)"
  shows "if ArtURL metadata \<noteq> currentArtURL sd \<and> ArtURL metadata \<noteq> []
         then sd' = sd\<lparr>currentArtURL := ArtURL metadata\<rparr> \<and>
              filter is_download out = [DownloadArtwork (ArtURL metadata)]
         else sd' = sd \<and> filter is_download out = []"
proof -
  obtain bar where bar: "drawProgressBar unrep metadata (getTerminalSize sd (term_size world)) = Some bar"
    using drawProgressBar_total by blast
  have nb: "filter is_download bar = []"
    using bar by (rule drawProgressBar_no_download)
  show ?thesis
    using assms bar nb
    by (auto simp add: tick_def Let_def displayImage_no_download split: sum.splits if_splits)
qed

lemma tick_no_renderer_after_failure:
  assumes "tick vString unrep sd world = Some (sd', out)"
    and "getMetadata vString (bus world) = Some (Inr metadata)"
    and "isl (downloadArtwork (sd\<lparr>currentArtURL := ArtURL metadata\<rparr>) (ArtURL metadata) (artwork world))"
  shows "\<forall>p. RunChafa p \<notin> set out"
  using assms
  by (auto simp add: tick_def Let_def drawProgressBar_def split: sum.splits option.splits if_splits)

lemma tick_state:
  "tick vString unrep sd world = Some (sd', out) \<Longrightarrow> sd' = sd\<lparr>currentArtURL := currentArtURL sd'\<rparr>"
  by (auto simp add: tick_def Let_def split: sum.splits option.splits if_splits)

lemma tick_align_ok:
  "align_ok sd \<Longrightarrow> tick vString unrep sd world = Some (sd', out) \<Longrightarrow> align_ok sd'"
proof -
  assume ok: "align_ok sd" and t: "tick vString unrep sd world = Some (sd', out)"
  from t have "sd' = sd\<lparr>currentArtURL := currentArtURL sd'\<rparr>" by (rule tick_state)
  then have "horizontalAlign sd' = horizontalAlign sd" and "verticalAlign sd' = verticalAlign sd"
    by (metis SpotifyDisplay.select_convs(5) SpotifyDisplay.surjective SpotifyDisplay.update_convs(7),
        metis SpotifyDisplay.select_convs(6) SpotifyDisplay.surjective SpotifyDisplay.update_convs(7))
  with ok show ?thesis by (simp add: align_ok_def)
qed

text \<open>The same for the tick of the shorter variant.\<close>

lemma drawProgressBar_progress_part000_range:
  "0 \<le> drawProgressBar_progress_part000 unrep metadata \<and>
   drawProgressBar_progress_part000 unrep metadata \<le> 40"
  by (simp add: drawProgressBar_progress_part000_def Let_def)

lemma drawProgressBar_part000_total:
  "\<exists>out. drawProgressBar_part000 unrep metadata term = Some out \<and> filter is_download out = [] \<and>
     (\<forall>p. RunChafa p \<notin> set out)"
  using drawProgressBar_progress_part000_range [of unrep metadata]
  by (simp add: drawProgressBar_part000_def Let_def Repeat_single)

lemma tick_part000_metadata_failure:
  "getMetadata_part000 vString (bus world) = Some (Inl err) \<Longrightarrow>
     tick_part000 vString unrep sd world = Some (sd, [])"
  by (simp add: tick_part000_def)

lemma tick_part000_cases:
  assumes "tick_part000 vString unrep sd world = Some (sd', out)"
    and "getMetadata_part000 vString (bus world) = Some (Inr metadata)"
  shows "if ArtURL metadata \<noteq> currentArtURL sd \<and> ArtURL metadata \<noteq> []
         then sd' = sd\<lparr>currentArtURL := ArtURL metadata\<rparr> \<and>
              filter is_download out = [DownloadArtwork (ArtURL metadata)]
         else sd' = sd \<and> filter is_download out = []"
proof -
  obtain bar where bar: "drawProgressBar_part000 unrep metadata (getTerminalSize_part000 sd (term_size world)) = Some bar"
    and nb: "filter is_download bar = []"
    using drawProgressBar_part000_total by blast
  have nd: "filter is_download (fst (displayImage_part000 imagePath x y env)) = []" for imagePath x y env
    by (simp add: displayImage_part000_def split: option.splits)
  show ?thesis
    using assms bar nb
    by (auto simp add: tick_part000_def Let_def nd split: option.splits prod.splits if_splits)
qed

lemma tick_part000_no_renderer_after_failure:
  assumes "tick_part000 vString unrep sd world = Some (sd', out)"
    and "getMetadata_part000 vString (bus world) = Some (Inr metadata)"
    and "downloadArtwork_part000 (sd\<lparr>currentArtURL := ArtURL metadata\<rparr>) (ArtURL metadata) (artwork world)
           = Some (path, Some err)"
  shows "\<forall>p. RunChafa p \<notin> set out"
proof -
  obtain bar where bar: "drawProgressBar_part000 unrep metadata (getTerminalSize_part000 sd (term_size world)) = Some bar"
    and nb: "\<forall>p. RunChafa p \<notin> set bar"
    using drawProgressBar_part000_total by blast
  show ?thesis
    using assms bar nb
    by (auto simp add: tick_part000_def Let_def split: option.splits prod.splits if_splits)
qed

text \<open>The metadata that both variants build for the example track.\<close>

lemma example_metadata:
  "\<exists>metadata. getMetadata example_vString (bus (example_world ''file:///a.png'' ok)) = Some (Inr metadata) \<and>
     ArtURL metadata = ''/a.png''"
  by (simp add: example_world_def example_bus_def getMetadata_def go_index_def as_int64_def
      Variant_String_def example_vString_def quoted_def normalizeArtURL_def trim_quotes_def dquote_def
      cdn_prefix_def fileuri_prefix_def TrimPrefix_def)

lemma example_metadata_part000:
  "\<exists>metadata. getMetadata_part000 example_vString (bus (example_world ''file:///a.png'' ok)) = Some (Inr metadata) \<and>
     ArtURL metadata = ''/a.png''"
  by (simp add: example_world_def example_bus_def getMetadata_part000_def go_index_def as_int64_def
      Variant_String_def example_vString_def quoted_def normalizeArtURL_def trim_quotes_def dquote_def
      cdn_prefix_def fileuri_prefix_def TrimPrefix_def Let_def)

text \<open>
  Claim C1, as the code has it.  In both variants, a tick that calls \<^verbatim>\<open>downloadArtwork\<close> had
  metadata, calls it once, and the cache slot \<^verbatim>\<open>currentArtURL\<close> holds the art reference of
  the tick afterwards, whatever the call returns: the slot is assigned before the call.
  When the call fails, the renderer is not run.  A tick that does not call it, with or
  without metadata, leaves the whole state unchanged.
\<close>

theorem cache_slot_assigned_before_fetch:
  "(tick vString unrep sd world = Some (sd', out) \<longrightarrow>
      (filter is_download out \<noteq> [] \<longrightarrow>
         (\<exists>metadata. getMetadata vString (bus world) = Some (Inr metadata) \<and>
            filter is_download out = [DownloadArtwork (ArtURL metadata)] \<and>
            sd' = sd\<lparr>currentArtURL := ArtURL metadata\<rparr> \<and>
            (isl (downloadArtwork sd' (ArtURL metadata) (artwork world)) \<longrightarrow>
               (\<forall>p. RunChafa p \<notin> set out)))) \<and>
      (filter is_download out = [] \<longrightarrow> sd' = sd)) \<and>
   (tick_part000 vString unrep sd world = Some (sd', out) \<longrightarrow>
      (filter is_download out \<noteq> [] \<longrightarrow>
         (\<exists>metadata. getMetadata_part000 vString (bus world) = Some (Inr metadata) \<and>
            filter is_download out = [DownloadArtwork (ArtURL metadata)] \<and>
            sd' = sd\<lparr>currentArtURL := ArtURL metadata\<rparr> \<and>
            ((\<exists>path err. downloadArtwork_part000 sd' (ArtURL metadata) (artwork world)
                  = Some (path, Some err)) \<longrightarrow>
               (\<forall>p. RunChafa p \<notin> set out)))) \<and>
      (filter is_download out = [] \<longrightarrow> sd' = sd))"
proof (intro conjI impI)
  assume t: "tick vString unrep sd world = Some (sd', out)" and d: "filter is_download out \<noteq> []"
  from t have "getMetadata vString (bus world) \<noteq> None"
    using tick_None_iff [of vString unrep sd world] by simp
  then obtain res where g0: "getMetadata vString (bus world) = Some res" by blast
  have "\<exists>metadata. res = Inr metadata"
  proof (cases res)
    case (Inl err)
    with g0 t d show ?thesis by (simp add: tick_metadata_failure)
  next
    case (Inr metadata)
    then show ?thesis by blast
  qed
  then obtain metadata where g: "getMetadata vString (bus world) = Some (Inr metadata)"
    using g0 by blast
  from tick_cases [OF t g] d
  have c: "sd' = sd\<lparr>currentArtURL := ArtURL metadata\<rparr>"
    "filter is_download out = [DownloadArtwork (ArtURL metadata)]"
    by (simp_all split: if_splits)
  have "\<forall>p. RunChafa p \<notin> set out"
    if "isl (downloadArtwork sd' (ArtURL metadata) (artwork world))"
    using tick_no_renderer_after_failure [OF t g] that c(1) by simp
  with g c show "\<exists>metadata. getMetadata vString (bus world) = Some (Inr metadata) \<and>
            filter is_download out = [DownloadArtwork (ArtURL metadata)] \<and>
            sd' = sd\<lparr>currentArtURL := ArtURL metadata\<rparr> \<and>
            (isl (downloadArtwork sd' (ArtURL metadata) (artwork world)) \<longrightarrow>
               (\<forall>p. RunChafa p \<notin> set out))"
    by blast
next
  assume t: "tick vString unrep sd world = Some (sd', out)" and d: "filter is_download out = []"
  from t have "getMetadata vString (bus world) \<noteq> None"
    using tick_None_iff [of vString unrep sd world] by simp
  then obtain res where g0: "getMetadata vString (bus world) = Some res" by blast
  show "sd' = sd"
  proof (cases res)
    case (Inl err)
    with g0 t show ?thesis by (simp add: tick_metadata_failure)
  next
    case (Inr metadata)
    with g0 have g: "getMetadata vString (bus world) = Some (Inr metadata)" by simp
    from tick_cases [OF t g] d show ?thesis by (simp split: if_splits)
  qed
next
  assume t: "tick_part000 vString unrep sd world = Some (sd', out)" and d: "filter is_download out \<noteq> []"
  from t obtain res where g0: "getMetadata_part000 vString (bus world) = Some res"
    by (auto simp add: tick_part000_def Let_def split: option.splits)
  have "\<exists>metadata. res = Inr metadata"
  proof (cases res)
    case (Inl err)
    with g0 t d show ?thesis by (simp add: tick_part000_metadata_failure)
  next
    case (Inr metadata)
    then show ?thesis by blast
  qed
  then obtain metadata where g: "getMetadata_part000 vString (bus world) = Some (Inr metadata)"
    using g0 by blast
  from tick_part000_cases [OF t g] d
  have c: "sd' = sd\<lparr>currentArtURL := ArtURL metadata\<rparr>"
    "filter is_download out = [DownloadArtwork (ArtURL metadata)]"
    by (simp_all split: if_splits)
  have "\<forall>p. RunChafa p \<notin> set out"
    if "\<exists>path err. downloadArtwork_part000 sd' (ArtURL metadata) (artwork world) = Some (path, Some err)"
    using tick_part000_no_renderer_after_failure [OF t g] that c(1) by auto
  with g c show "\<exists>metadata. getMetadata_part000 vString (bus world) = Some (Inr metadata) \<and>
            filter is_download out = [DownloadArtwork (ArtURL metadata)] \<and>
            sd' = sd\<lparr>currentArtURL := ArtURL metadata\<rparr> \<and>
            ((\<exists>path err. downloadArtwork_part000 sd' (ArtURL metadata) (artwork world)
                  = Some (path, Some err)) \<longrightarrow>
               (\<forall>p. RunChafa p \<notin> set out))"
    by blast
next
  assume t: "tick_part000 vString unrep sd world = Some (sd', out)" and d: "filter is_download out = []"
  from t obtain res where g0: "getMetadata_part000 vString (bus world) = Some res"
    by (auto simp add: tick_part000_def Let_def split: option.splits)
  show "sd' = sd"
  proof (cases res)
    case (Inl err)
    with g0 t show ?thesis by (simp add: tick_part000_metadata_failure)
  next
    case (Inr metadata)
    with g0 have g: "getMetadata_part000 vString (bus world) = Some (Inr metadata)" by simp
    from tick_part000_cases [OF t g] d show ?thesis by (simp split: if_splits)
  qed
qed

text \<open>
  In both variants, a first tick whose fetch fails (the local file cannot be opened) sets
  the slot; a tick that starts with the slot already set to the reference leaves the state
  as it is.
\<close>

theorem cache_slot_assigned_before_fetch_witness:
  "tick example_vString example_unrep (NewSpotifyDisplay ''/c'') (example_world ''file:///a.png'' False)
     = Some ((NewSpotifyDisplay ''/c'')\<lparr>currentArtURL := ''/a.png''\<rparr>,
             snd (the (tick example_vString example_unrep (NewSpotifyDisplay ''/c'')
                         (example_world ''file:///a.png'' False)))) \<and>
   map_option fst
     (tick example_vString example_unrep ((NewSpotifyDisplay ''/c'')\<lparr>currentArtURL := ''/a.png''\<rparr>)
        (example_world ''file:///a.png'' True))
     = Some ((NewSpotifyDisplay ''/c'')\<lparr>currentArtURL := ''/a.png''\<rparr>) \<and>
   map_option fst
     (tick_part000 example_vString example_unrep (NewSpotifyDisplay ''/c'')
        (example_world ''file:///a.png'' False))
     = Some ((NewSpotifyDisplay ''/c'')\<lparr>currentArtURL := ''/a.png''\<rparr>)"
proof -
  let ?sd = "NewSpotifyDisplay ''/c''"
  let ?sd1 = "?sd\<lparr>currentArtURL := ''/a.png''\<rparr>"
  let ?w = "example_world ''file:///a.png'' False"
  let ?w1 = "example_world ''file:///a.png'' True"
  obtain md where g: "getMetadata example_vString (bus ?w) = Some (Inr md)" and u: "ArtURL md = ''/a.png''"
    using example_metadata by blast
  have g1: "getMetadata example_vString (bus ?w1) = Some (Inr md)"
    using g by (simp add: example_world_def)
  obtain md0 where g0: "getMetadata_part000 example_vString (bus ?w) = Some (Inr md0)"
    and u0: "ArtURL md0 = ''/a.png''"
    using example_metadata_part000 by blast
  obtain sd' out where t: "tick example_vString example_unrep ?sd ?w = Some (sd', out)"
    using tick_None_iff [of example_vString example_unrep ?sd ?w] g by auto
  obtain sd'' out' where t1: "tick example_vString example_unrep ?sd1 ?w1 = Some (sd'', out')"
    using tick_None_iff [of example_vString example_unrep ?sd1 ?w1] g1 by auto
  have "tick_part000 example_vString example_unrep ?sd ?w \<noteq> None"
    using g0 u0 drawProgressBar_part000_total [of example_unrep md0 "getTerminalSize_part000 ?sd (term_size ?w)"]
    by (auto simp add: tick_part000_def Let_def downloadArtwork_part000_def example_world_def
        example_artwork_def NewSpotifyDisplay_def)
  then obtain sd0 out0 where t0: "tick_part000 example_vString example_unrep ?sd ?w = Some (sd0, out0)"
    by auto
  have d: "filter is_download out \<noteq> []"
    using tick_cases [OF t g] u by (simp add: NewSpotifyDisplay_def)
  have d1: "filter is_download out' = []"
    using tick_cases [OF t1 g1] u by simp
  have d0: "filter is_download out0 \<noteq> []"
    using tick_part000_cases [OF t0 g0] u0 by (simp add: NewSpotifyDisplay_def)
  have "sd' = ?sd1"
    using cache_slot_assigned_before_fetch [of example_vString example_unrep ?sd ?w sd' out] t g d u
    by auto
  moreover have "sd'' = ?sd1"
    using cache_slot_assigned_before_fetch [of example_vString example_unrep ?sd1 ?w1 sd'' out'] t1 d1
    by simp
  moreover have "sd0 = ?sd1"
    using cache_slot_assigned_before_fetch [of example_vString example_unrep ?sd ?w sd0 out0] t0 g0 d0 u0
    by auto
  ultimately show ?thesis using t t1 t0 by simp
qed

text \<open>
  The claim as first stated, that a failed fetch leaves the slot unchanged, fails in both
  variants.  The track has a title, an artist, an album, a length, a position and a local
  art URL; the slot starts empty; the tick calls \<^verbatim>\<open>downloadArtwork\<close> once; the call fails
  because the file cannot be opened; and the slot holds the new reference afterwards.
\<close>

theorem cache_slot_set_on_failed_fetch:
  "currentArtURL (NewSpotifyDisplay ''/c'') = [] \<and>
   downloadArtwork ((NewSpotifyDisplay ''/c'')\<lparr>currentArtURL := ''/a.png''\<rparr>) ''/a.png''
     (artwork (example_world ''file:///a.png'' False)) = Inl OpenFailed \<and>
   map_option (filter is_download \<circ> snd)
     (tick example_vString example_unrep (NewSpotifyDisplay ''/c'') (example_world ''file:///a.png'' False))
     = Some [DownloadArtwork ''/a.png''] \<and>
   map_option (currentArtURL \<circ> fst)
     (tick example_vString example_unrep (NewSpotifyDisplay ''/c'') (example_world ''file:///a.png'' False))
     = Some ''/a.png'' \<and>
   downloadArtwork_part000 ((NewSpotifyDisplay ''/c'')\<lparr>currentArtURL := ''/a.png''\<rparr>) ''/a.png''
     (artwork (example_world ''file:///a.png'' False)) = Some (''/c/current_artwork.png'', Some CopyFailed) \<and>
   map_option (filter is_download \<circ> snd)
     (tick_part000 example_vString example_unrep (NewSpotifyDisplay ''/c'')
        (example_world ''file:///a.png'' False))
     = Some [DownloadArtwork ''/a.png''] \<and>
   map_option (currentArtURL \<circ> fst)
     (tick_part000 example_vString example_unrep (NewSpotifyDisplay ''/c'')
        (example_world ''file:///a.png'' False))
     = Some ''/a.png''"
  by code_simp

subsection \<open>The loop\<close>

text \<open>A timer tick never ends the loop: the step returns \<open>Running\<close> or panics with the tick.\<close>

lemma step_Tick:
  "step vString unrep sd (Tick world) =
     map_option (\<lambda>(sd', out). (Running, sd', out)) (tick vString unrep sd world)"
  by (simp add: step_def split: option.splits)

lemma step_Tick_Running:
  "step vString unrep sd (Tick world) = Some (st, sd', out) \<Longrightarrow> st = Running"
  by (auto simp add: step_def split: option.splits)

lemma step_Tick_returns:
  "getMetadata vString (bus world) = Some res \<Longrightarrow>
     \<exists>sd' out. step vString unrep sd (Tick world) = Some (Running, sd', out)"
  using tick_None_iff [of vString unrep sd world] by (auto simp add: step_Tick)

lemma run_ticks_returns:
  "\<forall>w \<in> set ws. getMetadata vString (bus w) \<noteq> None \<Longrightarrow>
     \<exists>sd' out. run vString unrep sd (map Tick ws) = Some (Running, sd', out)"
proof (induction ws arbitrary: sd)
  case Nil
  then show ?case by simp
next
  case (Cons w ws)
  from Cons.prems obtain res where "getMetadata vString (bus w) = Some res" by auto
  then obtain sd1 out1 where s: "step vString unrep sd (Tick w) = Some (Running, sd1, out1)"
    using step_Tick_returns by blast
  obtain sd2 out2 where "run vString unrep sd1 (map Tick ws) = Some (Running, sd2, out2)"
    using Cons.IH [of sd1] Cons.prems by auto
  with s show ?case by simp
qed

lemma step_align_ok:
  "align_ok sd \<Longrightarrow> step vString unrep sd i = Some (st, sd', out) \<Longrightarrow> align_ok sd'"
proof (cases i)
  case (KeyEvent event)
  assume ok: "align_ok sd" and s: "step vString unrep sd i = Some (st, sd', out)"
  have a1: "align_ok (fst (handleKeyboard sd event))" using ok by (rule handleKeyboard_align_ok)
  then have "align_ok ((fst (handleKeyboard sd event))\<lparr>currentArtURL := []\<rparr>)"
    by (simp add: align_ok_def)
  with a1 ok s KeyEvent show ?thesis
    by (auto simp add: step_def Let_def split: if_splits prod.splits)
next
  case (Tick world)
  assume "align_ok sd" and "step vString unrep sd i = Some (st, sd', out)"
  with Tick show ?thesis
    by (auto simp add: step_def split: option.splits dest: tick_align_ok)
next
  case Signal
  assume "align_ok sd" and "step vString unrep sd i = Some (st, sd', out)"
  with Signal show ?thesis by (simp add: step_def)
qed

lemma run_align_ok:
  "align_ok sd \<Longrightarrow> run vString unrep sd is = Some (st, sd', out) \<Longrightarrow> align_ok sd'"
proof (induction "is" arbitrary: sd st sd' out)
  case Nil
  then show ?case by simp
next
  case (Cons i "is")
  from Cons.prems(2) obtain st1 sd1 out1 where s: "step vString unrep sd i = Some (st1, sd1, out1)"
    by (auto split: option.splits)
  have ok1: "align_ok sd1" using Cons.prems(1) s by (rule step_align_ok)
  show ?case
  proof (cases st1)
    case Running
    with Cons.prems(2) s obtain out2 where "run vString unrep sd1 is = Some (st, sd', out2)"
      by (auto split: option.splits)
    with ok1 show ?thesis by (rule Cons.IH)
  next
    case Terminating
    with Cons.prems(2) s ok1 show ?thesis by auto
  qed
qed

text \<open>
  Claim C10.  On every state whose alignment strings are among the three values of their
  axis, the two variants of \<^verbatim>\<open>getTerminalSize\<close> return the same record.  These are the only
  states that the loop reaches from the initial one.  For any other vertical string the
  horizontal origins still agree, while \<^verbatim>\<open>main.go\<close> centres vertically and the shorter
  variant aligns to the bottom.
\<close>

theorem getTerminalSize_variants_agree:
  "(align_ok sd \<longrightarrow> getTerminalSize_part000 sd sz = getTerminalSize sd sz) \<and>
   (verticalAlign sd \<notin> {''top'', ''center'', ''bottom''} \<longrightarrow>
      startX (getTerminalSize_part000 sd sz) = startX (getTerminalSize sd sz) \<and>
      startY (getTerminalSize sd sz) = (snd sz - contentHeight sd) sdiv 2 \<and>
      startY (getTerminalSize_part000 sd sz) = snd sz - contentHeight sd - margin sd) \<and>
   (run vString unrep (NewSpotifyDisplay dir) is = Some (st, sd', out) \<longrightarrow> align_ok sd')"
proof (intro conjI impI)
  assume "align_ok sd"
  then show "getTerminalSize_part000 sd sz = getTerminalSize sd sz"
    by (auto simp add: getTerminalSize_def getTerminalSize_part000_def align_ok_def Let_def)
next
  assume "verticalAlign sd \<notin> {''top'', ''center'', ''bottom''}"
  then show "startX (getTerminalSize_part000 sd sz) = startX (getTerminalSize sd sz)"
    and "startY (getTerminalSize sd sz) = (snd sz - contentHeight sd) sdiv 2"
    and "startY (getTerminalSize_part000 sd sz) = snd sz - contentHeight sd - margin sd"
    by (simp_all add: getTerminalSize_def getTerminalSize_part000_def Let_def)
next
  assume "run vString unrep (NewSpotifyDisplay dir) is = Some (st, sd', out)"
  with NewSpotifyDisplay_align_ok show "align_ok sd'" by (rule run_align_ok)
qed

text \<open>
  At 80 by 24 the variants agree on the initial state and on the state after the keys up
  and left; with the vertical string \<open>middle\<close>, which no key sets, \<^verbatim>\<open>main.go\<close> puts the origin
  at row 7 and the shorter variant at row 13.
\<close>

theorem getTerminalSize_variants_agree_witness:
  "getTerminalSize_part000 (NewSpotifyDisplay ''/c'') (80, 24) = getTerminalSize (NewSpotifyDisplay ''/c'') (80, 24) \<and>
   startY (getTerminalSize ((NewSpotifyDisplay ''/c'')\<lparr>verticalAlign := ''middle''\<rparr>) (80, 24)) = 7 \<and>
   startY (getTerminalSize_part000 ((NewSpotifyDisplay ''/c'')\<lparr>verticalAlign := ''middle''\<rparr>) (80, 24)) = 13 \<and>
   run example_vString example_unrep (NewSpotifyDisplay ''/c'') [key KeyArrowUp, key KeyArrowLeft]
     = Some (Running, (NewSpotifyDisplay ''/c'')\<lparr>horizontalAlign := ''left'', verticalAlign := ''top''\<rparr>,
             [ClearScreen, ClearScreen]) \<and>
   align_ok ((NewSpotifyDisplay ''/c'')\<lparr>horizontalAlign := ''left'', verticalAlign := ''top''\<rparr>)"
proof -
  let ?sd = "NewSpotifyDisplay ''/c''"
  let ?keys = "[key KeyArrowUp, key KeyArrowLeft]"
  let ?sd' = "?sd\<lparr>horizontalAlign := ''left'', verticalAlign := ''top''\<rparr>"
  have r: "run example_vString example_unrep ?sd ?keys = Some (Running, ?sd', [ClearScreen, ClearScreen])"
    by (simp add: key_def step_def handleKeyboard_def NewSpotifyDisplay_def)
  have a: "align_ok ?sd"
    by (simp add: NewSpotifyDisplay_def align_ok_def)
  have n: "verticalAlign (?sd\<lparr>verticalAlign := ''middle''\<rparr>) \<notin> {''top'', ''center'', ''bottom''}"
    by simp
  show ?thesis
    using getTerminalSize_variants_agree [of ?sd "(80, 24)" example_vString example_unrep "''/c''" ?keys Running ?sd' "[ClearScreen, ClearScreen]"]
      getTerminalSize_variants_agree [of "?sd\<lparr>verticalAlign := ''middle''\<rparr>" "(80, 24)" example_vString example_unrep "''/c''" "[]" Running ?sd "[]"]
      r a n
    by (simp add: NewSpotifyDisplay_def signed_divide_int_def)
qed

subsection \<open>A tick whose metadata query fails\<close>

text \<open>
  In \<^verbatim>\<open>main.go\<close>, a tick on which \<^verbatim>\<open>getMetadata\<close> returns an error writes nothing and leaves
  the whole state as it was, and the loop keeps running: a run that starts with such a tick
  equals the run without it.  The shorter variant does the same on the one error that its
  \<^verbatim>\<open>getMetadata\<close> returns, that of the first bus query.
\<close>

lemma tick_failure_skipped:
  assumes "getMetadata vString (bus world) = Some (Inl err)"
  shows "tick vString unrep sd world = Some (sd, [])"
    and "step vString unrep sd (Tick world) = Some (Running, sd, [])"
    and "run vString unrep sd (Tick world # rest) = run vString unrep sd rest"
proof -
  show t: "tick vString unrep sd world = Some (sd, [])"
    using assms by (rule tick_metadata_failure)
  then show s: "step vString unrep sd (Tick world) = Some (Running, sd, [])"
    by (simp add: step_def)
  show "run vString unrep sd (Tick world # rest) = run vString unrep sd rest"
    by (simp add: s split: option.splits prod.splits)
qed

lemma getMetadata_part000_error:
  "getMetadata_part000 vString b = Some (Inl err) \<longleftrightarrow> metadata_property b = None \<and> err = BusError"
  by (auto simp add: getMetadata_part000_def Let_def split: option.splits dbus_value.splits)

lemma ticks_part000_failure_skipped:
  "getMetadata_part000 vString (bus world) = Some (Inl err) \<Longrightarrow>
     ticks_part000 vString unrep sd (world # rest) = ticks_part000 vString unrep sd rest"
  by (simp add: tick_part000_metadata_failure split: option.splits prod.splits)

text \<open>
  Claim C7 fails in the shorter variant.  When the metadata query itself fails, both
  variants skip the tick.  Now the bus answers the metadata query with a string where a
  dictionary is expected.  \<^verbatim>\<open>main.go\<close> returns the error of an invalid metadata format:
  the tick writes nothing, the state is unchanged, the loop is running and the next tick
  draws.  The shorter variant asserts the dictionary type without a test and panics: the
  tick, and with it the loop, does not return.  It panics in the same way on an artist
  entry that is no list of strings, where \<^verbatim>\<open>main.go\<close> returns an error.  On a length of an
  unrecognized type \<^verbatim>\<open>main.go\<close> returns an error and skips the tick, while the shorter variant
  takes the length as zero and draws the frame.
\<close>

theorem metadata_failure_part000_panics:
  "getMetadata example_vString (bus failing_world) = Some (Inl BusError) \<and>
   tick example_vString example_unrep (NewSpotifyDisplay ''/c'') failing_world
     = Some (NewSpotifyDisplay ''/c'', []) \<and>
   getMetadata_part000 example_vString (bus failing_world) = Some (Inl BusError) \<and>
   tick_part000 example_vString example_unrep (NewSpotifyDisplay ''/c'') failing_world
     = Some (NewSpotifyDisplay ''/c'', []) \<and>
   getMetadata example_vString (bus malformed_world) = Some (Inl InvalidMetadataFormat) \<and>
   tick example_vString example_unrep (NewSpotifyDisplay ''/c'') malformed_world
     = Some (NewSpotifyDisplay ''/c'', []) \<and>
   run example_vString example_unrep (NewSpotifyDisplay ''/c'')
       [Tick malformed_world, Tick (example_world ''file:///a.png'' True)]
     = run example_vString example_unrep (NewSpotifyDisplay ''/c'')
         [Tick (example_world ''file:///a.png'' True)] \<and>
   map_option fst
     (run example_vString example_unrep (NewSpotifyDisplay ''/c'')
        [Tick malformed_world, Tick (example_world ''file:///a.png'' True)]) = Some Running \<and>
   getMetadata_part000 example_vString (bus malformed_world) = None \<and>
   tick_part000 example_vString example_unrep (NewSpotifyDisplay ''/c'') malformed_world = None \<and>
   ticks_part000 example_vString example_unrep (NewSpotifyDisplay ''/c'')
     [malformed_world, example_world ''file:///a.png'' True] = None \<and>
   getMetadata example_vString (bus artist_world) = Some (Inl InvalidArtistFormat) \<and>
   tick example_vString example_unrep (NewSpotifyDisplay ''/c'') artist_world
     = Some (NewSpotifyDisplay ''/c'', []) \<and>
   tick_part000 example_vString example_unrep (NewSpotifyDisplay ''/c'') artist_world = None \<and>
   getMetadata example_vString (bus untyped_length_world)
     = Some (Inl UnexpectedLengthType) \<and>
   tick example_vString example_unrep (NewSpotifyDisplay ''/c'')
       untyped_length_world
     = Some (NewSpotifyDisplay ''/c'', []) \<and>
   map_option (map_sum id (\<lambda>metadata. (sint (Length metadata), sint (Position metadata))))
     (getMetadata_part000 example_vString (bus untyped_length_world))
     = Some (Inr (0, 125)) \<and>
   map_option (\<lambda>(sd, out). (currentArtURL sd, length out))
     (tick_part000 example_vString example_unrep (NewSpotifyDisplay ''/c'')
        untyped_length_world)
     = Some (''/a.png'', 19)"
  by code_simp

subsection \<open>When the artwork is fetched\<close>

lemma tick_renderer_after_download:
  assumes "tick vString unrep sd world = Some (sd', out)" and "RunChafa p \<in> set out"
  shows "filter is_download out \<noteq> []"
  using assms
  by (auto simp add: tick_def Let_def drawProgressBar_def displayImage_def
      split: sum.splits option.splits if_splits)

lemma tick_part000_renderer_after_download:
  assumes "tick_part000 vString unrep sd world = Some (sd', out)" and "RunChafa p \<in> set out"
  shows "filter is_download out \<noteq> []"
proof -
  from assms(1) obtain res where g0: "getMetadata_part000 vString (bus world) = Some res"
    by (auto simp add: tick_part000_def Let_def split: option.splits)
  show ?thesis
  proof (cases res)
    case (Inl err)
    with g0 assms show ?thesis by (simp add: tick_part000_metadata_failure)
  next
    case (Inr metadata)
    with g0 have g: "getMetadata_part000 vString (bus world) = Some (Inr metadata)" by simp
    obtain bar where bar: "drawProgressBar_part000 unrep metadata (getTerminalSize_part000 sd (term_size world)) = Some bar"
      and nb: "\<forall>p. RunChafa p \<notin> set bar"
      using drawProgressBar_part000_total by blast
    show ?thesis
      using assms g bar nb
      by (auto simp add: tick_part000_def Let_def split: option.splits prod.splits if_splits)
  qed
qed

lemma tick_download_iff:
  assumes "tick vString unrep sd world = Some (sd', out)"
  shows "filter is_download out \<noteq> [] \<longleftrightarrow>
           (\<exists>metadata. getMetadata vString (bus world) = Some (Inr metadata) \<and>
              ArtURL metadata \<noteq> [] \<and> ArtURL metadata \<noteq> currentArtURL sd)"
    and "length (filter is_download out) \<le> 1"
proof -
  from assms have "getMetadata vString (bus world) \<noteq> None"
    using tick_None_iff [of vString unrep sd world] by simp
  then obtain res where g0: "getMetadata vString (bus world) = Some res" by blast
  have "(filter is_download out \<noteq> [] \<longleftrightarrow>
           (\<exists>metadata. getMetadata vString (bus world) = Some (Inr metadata) \<and>
              ArtURL metadata \<noteq> [] \<and> ArtURL metadata \<noteq> currentArtURL sd)) \<and>
        length (filter is_download out) \<le> 1"
  proof (cases res)
    case (Inl err)
    with g0 assms show ?thesis by (simp add: tick_metadata_failure)
  next
    case (Inr metadata)
    with g0 have g: "getMetadata vString (bus world) = Some (Inr metadata)" by simp
    from tick_cases [OF assms g] g show ?thesis by (auto split: if_splits)
  qed
  then show "filter is_download out \<noteq> [] \<longleftrightarrow>
           (\<exists>metadata. getMetadata vString (bus world) = Some (Inr metadata) \<and>
              ArtURL metadata \<noteq> [] \<and> ArtURL metadata \<noteq> currentArtURL sd)"
    and "length (filter is_download out) \<le> 1"
    by blast+
qed

lemma tick_part000_download_iff:
  assumes "tick_part000 vString unrep sd world = Some (sd', out)"
  shows "filter is_download out \<noteq> [] \<longleftrightarrow>
           (\<exists>metadata. getMetadata_part000 vString (bus world) = Some (Inr metadata) \<and>
              ArtURL metadata \<noteq> [] \<and> ArtURL metadata \<noteq> currentArtURL sd)"
    and "length (filter is_download out) \<le> 1"
proof -
  from assms obtain res where g0: "getMetadata_part000 vString (bus world) = Some res"
    by (auto simp add: tick_part000_def Let_def split: option.splits)
  have "(filter is_download out \<noteq> [] \<longleftrightarrow>
           (\<exists>metadata. getMetadata_part000 vString (bus world) = Some (Inr metadata) \<and>
              ArtURL metadata \<noteq> [] \<and> ArtURL metadata \<noteq> currentArtURL sd)) \<and>
        length (filter is_download out) \<le> 1"
  proof (cases res)
    case (Inl err)
    with g0 assms show ?thesis by (simp add: tick_part000_metadata_failure)
  next
    case (Inr metadata)
    with g0 have g: "getMetadata_part000 vString (bus world) = Some (Inr metadata)" by simp
    from tick_part000_cases [OF assms g] g show ?thesis by (auto split: if_splits)
  qed
  then show "filter is_download out \<noteq> [] \<longleftrightarrow>
           (\<exists>metadata. getMetadata_part000 vString (bus world) = Some (Inr metadata) \<and>
              ArtURL metadata \<noteq> [] \<and> ArtURL metadata \<noteq> currentArtURL sd)"
    and "length (filter is_download out) \<le> 1"
    by blast+
qed

text \<open>
  The tick of the shorter variant returns when its \<^verbatim>\<open>getMetadata\<close> does and the request for
  the download can be built.
\<close>

lemma tick_part000_returns:
  assumes "getMetadata_part000 vString (bus world) = Some res" and "request_ok (artwork world)"
  shows "\<exists>sd' out. tick_part000 vString unrep sd world = Some (sd', out)"
proof (cases res)
  case (Inl err)
  with assms show ?thesis by (simp add: tick_part000_metadata_failure)
next
  case (Inr metadata)
  obtain bar where bar: "drawProgressBar_part000 unrep metadata (getTerminalSize_part000 sd (term_size world)) = Some bar"
    using drawProgressBar_part000_total by blast
  have "\<exists>r. downloadArtwork_part000 sd1 u (artwork world) = Some r" for sd1 u
    using assms(2) by (simp add: downloadArtwork_part000_def Let_def split: option.splits)
  then obtain r where d: "downloadArtwork_part000 (sd\<lparr>currentArtURL := ArtURL metadata\<rparr>) (ArtURL metadata) (artwork world) = Some r"
    by blast
  show ?thesis
    using assms(1) Inr bar d
    by (cases r; cases "snd r") (auto simp add: tick_part000_def Let_def)
qed

text \<open>Consecutive ticks that present one reference which is not empty.\<close>

lemma run_same_reference:
  assumes "r \<noteq> []"
    and "\<forall>w \<in> set ws. \<exists>metadata. getMetadata vString (bus w) = Some (Inr metadata) \<and> ArtURL metadata = r"
  shows "\<exists>sd' out. run vString unrep sd (map Tick ws) = Some (Running, sd', out) \<and>
           length (filter is_download out) = (if ws = [] \<or> currentArtURL sd = r then 0 else 1) \<and>
           (ws \<noteq> [] \<longrightarrow> currentArtURL sd' = r)"
  using assms(2)
proof (induction ws arbitrary: sd)
  case Nil
  then show ?case by simp
next
  case (Cons w ws)
  obtain metadata where g: "getMetadata vString (bus w) = Some (Inr metadata)" and u: "ArtURL metadata = r"
    using Cons.prems by auto
  obtain sd1 out1 where t: "tick vString unrep sd w = Some (sd1, out1)"
    using tick_None_iff [of vString unrep sd w] g by auto
  have s: "step vString unrep sd (Tick w) = Some (Running, sd1, out1)"
    using t by (simp add: step_def)
  have c1: "currentArtURL sd1 = r"
    and n1: "length (filter is_download out1) = (if currentArtURL sd = r then 0 else 1)"
    using tick_cases [OF t g] u assms(1) by (auto split: if_splits)
  obtain sd2 out2 where r2: "run vString unrep sd1 (map Tick ws) = Some (Running, sd2, out2)"
    and n2: "length (filter is_download out2) = (if ws = [] \<or> currentArtURL sd1 = r then 0 else 1)"
    and c2: "ws \<noteq> [] \<longrightarrow> currentArtURL sd2 = r"
    using Cons.IH [of sd1] Cons.prems by auto
  from n2 c1 have z: "length (filter is_download out2) = 0" by simp
  have c: "currentArtURL sd2 = r"
  proof (cases ws)
    case Nil
    with r2 c1 show ?thesis by simp
  next
    case (Cons a list)
    with c2 show ?thesis by simp
  qed
  show ?case using s r2 n1 z c by simp
qed

lemma ticks_part000_same_reference:
  assumes "r \<noteq> []"
    and "\<forall>w \<in> set ws. request_ok (artwork w) \<and>
           (\<exists>metadata. getMetadata_part000 vString (bus w) = Some (Inr metadata) \<and> ArtURL metadata = r)"
  shows "\<exists>sd' out. ticks_part000 vString unrep sd ws = Some (sd', out) \<and>
           length (filter is_download out) = (if ws = [] \<or> currentArtURL sd = r then 0 else 1) \<and>
           (ws \<noteq> [] \<longrightarrow> currentArtURL sd' = r)"
  using assms(2)
proof (induction ws arbitrary: sd)
  case Nil
  then show ?case by simp
next
  case (Cons w ws)
  obtain metadata where g: "getMetadata_part000 vString (bus w) = Some (Inr metadata)"
    and u: "ArtURL metadata = r" and q: "request_ok (artwork w)"
    using Cons.prems by auto
  obtain sd1 out1 where t: "tick_part000 vString unrep sd w = Some (sd1, out1)"
    using tick_part000_returns [OF g q] by blast
  have c1: "currentArtURL sd1 = r"
    and n1: "length (filter is_download out1) = (if currentArtURL sd = r then 0 else 1)"
    using tick_part000_cases [OF t g] u assms(1) by (auto split: if_splits)
  obtain sd2 out2 where r2: "ticks_part000 vString unrep sd1 ws = Some (sd2, out2)"
    and n2: "length (filter is_download out2) = (if ws = [] \<or> currentArtURL sd1 = r then 0 else 1)"
    and c2: "ws \<noteq> [] \<longrightarrow> currentArtURL sd2 = r"
    using Cons.IH [of sd1] Cons.prems by auto
  from n2 c1 have z: "length (filter is_download out2) = 0" by simp
  have c: "currentArtURL sd2 = r"
  proof (cases ws)
    case Nil
    with r2 c1 show ?thesis by simp
  next
    case (Cons a list)
    with c2 show ?thesis by simp
  qed
  show ?case using t r2 n1 z c by simp
qed

text \<open>
  Claim C5.  In both variants, a tick that returns has called \<^verbatim>\<open>downloadArtwork\<close> if and only
  if \<^verbatim>\<open>getMetadata\<close> built a record whose art reference is not empty and differs from the
  cache slot; it has called it at most once, and the renderer has run only on a tick that
  called it.  A tick of \<^verbatim>\<open>main.go\<close> returns unless \<^verbatim>\<open>getMetadata\<close> panics.  Consecutive ticks
  that present one and the same non-empty reference all return (in the shorter variant,
  when the request of the download can be built) and hold one call of \<^verbatim>\<open>downloadArtwork\<close>
  when the slot differed from the reference at the start, and none otherwise.
\<close>

theorem artwork_pipeline_trigger:
  "(tick vString unrep sd world = None \<longleftrightarrow> getMetadata vString (bus world) = None) \<and>
   (tick vString unrep sd world = Some (sd1, out1) \<longrightarrow>
      (filter is_download out1 \<noteq> [] \<longleftrightarrow>
         (\<exists>metadata. getMetadata vString (bus world) = Some (Inr metadata) \<and>
            ArtURL metadata \<noteq> [] \<and> ArtURL metadata \<noteq> currentArtURL sd)) \<and>
      length (filter is_download out1) \<le> 1 \<and>
      ((\<exists>p. RunChafa p \<in> set out1) \<longrightarrow> filter is_download out1 \<noteq> [])) \<and>
   (tick_part000 vString unrep sd world = Some (sd1, out1) \<longrightarrow>
      (filter is_download out1 \<noteq> [] \<longleftrightarrow>
         (\<exists>metadata. getMetadata_part000 vString (bus world) = Some (Inr metadata) \<and>
            ArtURL metadata \<noteq> [] \<and> ArtURL metadata \<noteq> currentArtURL sd)) \<and>
      length (filter is_download out1) \<le> 1 \<and>
      ((\<exists>p. RunChafa p \<in> set out1) \<longrightarrow> filter is_download out1 \<noteq> [])) \<and>
   (r \<noteq> [] \<and>
    (\<forall>w \<in> set ws. \<exists>metadata. getMetadata vString (bus w) = Some (Inr metadata) \<and> ArtURL metadata = r) \<longrightarrow>
      (\<exists>sd2 out2. run vString unrep sd (map Tick ws) = Some (Running, sd2, out2) \<and>
         length (filter is_download out2) = (if ws = [] \<or> currentArtURL sd = r then 0 else 1))) \<and>
   (r \<noteq> [] \<and>
    (\<forall>w \<in> set ws. request_ok (artwork w) \<and>
       (\<exists>metadata. getMetadata_part000 vString (bus w) = Some (Inr metadata) \<and> ArtURL metadata = r)) \<longrightarrow>
      (\<exists>sd2 out2. ticks_part000 vString unrep sd ws = Some (sd2, out2) \<and>
         length (filter is_download out2) = (if ws = [] \<or> currentArtURL sd = r then 0 else 1)))"
proof (intro conjI impI)
  show "tick vString unrep sd world = None \<longleftrightarrow> getMetadata vString (bus world) = None"
    by (rule tick_None_iff)
next
  assume t: "tick vString unrep sd world = Some (sd1, out1)"
  show "filter is_download out1 \<noteq> [] \<longleftrightarrow>
         (\<exists>metadata. getMetadata vString (bus world) = Some (Inr metadata) \<and>
            ArtURL metadata \<noteq> [] \<and> ArtURL metadata \<noteq> currentArtURL sd)"
    using t by (rule tick_download_iff)
  show "length (filter is_download out1) \<le> 1"
    using t by (rule tick_download_iff)
  show "filter is_download out1 \<noteq> []" if "\<exists>p. RunChafa p \<in> set out1"
    using t that tick_renderer_after_download by blast
next
  assume t: "tick_part000 vString unrep sd world = Some (sd1, out1)"
  show "filter is_download out1 \<noteq> [] \<longleftrightarrow>
         (\<exists>metadata. getMetadata_part000 vString (bus world) = Some (Inr metadata) \<and>
            ArtURL metadata \<noteq> [] \<and> ArtURL metadata \<noteq> currentArtURL sd)"
    using t by (rule tick_part000_download_iff)
  show "length (filter is_download out1) \<le> 1"
    using t by (rule tick_part000_download_iff)
  show "filter is_download out1 \<noteq> []" if "\<exists>p. RunChafa p \<in> set out1"
    using t that tick_part000_renderer_after_download by blast
next
  assume "r \<noteq> [] \<and>
    (\<forall>w \<in> set ws. \<exists>metadata. getMetadata vString (bus w) = Some (Inr metadata) \<and> ArtURL metadata = r)"
  then show "\<exists>sd2 out2. run vString unrep sd (map Tick ws) = Some (Running, sd2, out2) \<and>
         length (filter is_download out2) = (if ws = [] \<or> currentArtURL sd = r then 0 else 1)"
    using run_same_reference [of r ws vString unrep sd] by blast
next
  assume "r \<noteq> [] \<and>
    (\<forall>w \<in> set ws. request_ok (artwork w) \<and>
       (\<exists>metadata. getMetadata_part000 vString (bus w) = Some (Inr metadata) \<and> ArtURL metadata = r))"
  then show "\<exists>sd2 out2. ticks_part000 vString unrep sd ws = Some (sd2, out2) \<and>
         length (filter is_download out2) = (if ws = [] \<or> currentArtURL sd = r then 0 else 1)"
    using ticks_part000_same_reference [of r ws vString unrep sd] by blast
qed

text \<open>
  Three consecutive ticks present the reference \<^verbatim>\<open>/a.png\<close> to the initial state, whose slot
  is empty: in both variants the ticks return and hold one call of \<^verbatim>\<open>downloadArtwork\<close>, made
  on the first tick, which also runs the renderer.
\<close>

theorem artwork_pipeline_trigger_witness:
  "map_option (\<lambda>(st, sd, out). length (filter is_download out))
     (run example_vString example_unrep (NewSpotifyDisplay ''/c'')
        (map Tick [example_world ''file:///a.png'' True, example_world ''file:///a.png'' True,
                   example_world ''file:///a.png'' True])) = Some 1 \<and>
   map_option (\<lambda>(sd, out). length (filter is_download out))
     (ticks_part000 example_vString example_unrep (NewSpotifyDisplay ''/c'')
        [example_world ''file:///a.png'' True, example_world ''file:///a.png'' True,
         example_world ''file:///a.png'' True]) = Some 1 \<and>
   map_option (\<lambda>(sd, out). (filter is_download out, RunChafa ''/c/current_artwork.png'' \<in> set out))
     (tick example_vString example_unrep (NewSpotifyDisplay ''/c'') (example_world ''file:///a.png'' True))
     = Some ([DownloadArtwork ''/a.png''], True) \<and>
   map_option (\<lambda>(sd, out). (filter is_download out, RunChafa ''/c/current_artwork.png'' \<in> set out))
     (tick_part000 example_vString example_unrep (NewSpotifyDisplay ''/c'')
        (example_world ''file:///a.png'' True))
     = Some ([DownloadArtwork ''/a.png''], True)"
proof -
  let ?sd = "NewSpotifyDisplay ''/c''"
  let ?w = "example_world ''file:///a.png'' True"
  let ?ws = "[?w, ?w, ?w]"
  obtain md where g: "getMetadata example_vString (bus ?w) = Some (Inr md)" and u: "ArtURL md = ''/a.png''"
    using example_metadata by blast
  obtain md0 where g0: "getMetadata_part000 example_vString (bus ?w) = Some (Inr md0)"
    and u0: "ArtURL md0 = ''/a.png''"
    using example_metadata_part000 by blast
  have q: "request_ok (artwork ?w)"
    by (simp add: example_world_def example_artwork_def)
  have h: "\<forall>w \<in> set ?ws. \<exists>metadata. getMetadata example_vString (bus w) = Some (Inr metadata) \<and>
             ArtURL metadata = ''/a.png''"
    using g u by simp
  have h0: "\<forall>w \<in> set ?ws. request_ok (artwork w) \<and>
              (\<exists>metadata. getMetadata_part000 example_vString (bus w) = Some (Inr metadata) \<and>
                 ArtURL metadata = ''/a.png'')"
    using g0 u0 q by simp
  have c: "currentArtURL ?sd = []"
    by (simp add: NewSpotifyDisplay_def)
  note T = artwork_pipeline_trigger [of example_vString example_unrep ?sd ?w _ _ "''/a.png''" ?ws]
  have "\<exists>sd2 out2. run example_vString example_unrep ?sd (map Tick ?ws) = Some (Running, sd2, out2) \<and>
          length (filter is_download out2) = 1"
    using T h c by simp
  moreover have "\<exists>sd2 out2. ticks_part000 example_vString example_unrep ?sd ?ws = Some (sd2, out2) \<and>
          length (filter is_download out2) = 1"
    using T h0 c by simp
  moreover have "map_option (\<lambda>(sd, out). (filter is_download out, RunChafa ''/c/current_artwork.png'' \<in> set out))
     (tick example_vString example_unrep ?sd ?w) = Some ([DownloadArtwork ''/a.png''], True)"
    by code_simp
  moreover have "map_option (\<lambda>(sd, out). (filter is_download out, RunChafa ''/c/current_artwork.png'' \<in> set out))
     (tick_part000 example_vString example_unrep ?sd ?w) = Some ([DownloadArtwork ''/a.png''], True)"
    by code_simp
  ultimately show ?thesis by auto
qed

subsection \<open>Signed 64-bit arithmetic\<close>

lemma sint_word_of_int_64:
  "- (2 ^ 63) \<le> k \<Longrightarrow> k < 2 ^ 63 \<Longrightarrow> sint (word_of_int k :: 64 word) = k"
  by (simp add: sint_sbintrunc' signed_take_bit_int_eq_self)

lemma sint_64_bounds: "- (2 ^ 63) \<le> sint (w :: 64 word)" "sint (w :: 64 word) < 2 ^ 63"
  using sint_ge [of w] sint_lt [of w] by simp_all

lemma sdiv_pos: "0 < n \<Longrightarrow> a sdiv n = (if 0 \<le> a then a div n else - ((- a) div n))" for a n :: int
  by (simp add: signed_divide_int_def sgn_if)

lemma sdiv_pos_bounds:
  fixes a n :: int
  assumes "0 < n"
  shows "- \<bar>a\<bar> \<le> a sdiv n" and "a sdiv n \<le> \<bar>a\<bar>"
  using sdiv_int_range [of a n] by simp_all

lemma sint_int64_div: "0 < sint b \<Longrightarrow> sint (int64_div a b) = sint a sdiv sint b"
proof -
  assume b: "0 < sint b"
  have "- (2 ^ 63) \<le> sint a sdiv sint b"
  proof (cases "0 \<le> sint a")
    case True
    with b have "0 \<le> sint a sdiv sint b" by (simp add: sdiv_pos pos_imp_zdiv_nonneg_iff)
    then show ?thesis by simp
  next
    case False
    have "- \<bar>sint a\<bar> \<le> sint a sdiv sint b" using b by (rule sdiv_pos_bounds)
    with False sint_64_bounds(1) [of a] show ?thesis by simp
  qed
  moreover have "sint a sdiv sint b < 2 ^ 63"
  proof (cases "0 \<le> sint a")
    case True
    have "sint a sdiv sint b \<le> \<bar>sint a\<bar>" using b by (rule sdiv_pos_bounds)
    with True sint_64_bounds(2) [of a] show ?thesis by simp
  next
    case False
    with b have "sint a sdiv sint b \<le> 0" by (simp add: sdiv_pos pos_imp_zdiv_nonneg_iff)
    then show ?thesis by simp
  qed
  ultimately show ?thesis by (simp add: int64_div_def sint_word_of_int_64)
qed

lemma sint_int64_rem: "0 < sint b \<Longrightarrow> sint (int64_rem a b) = sint a smod sint b"
proof -
  assume b: "0 < sint b"
  have "sint a smod sint b \<in> {- \<bar>sint b\<bar> + 1..\<bar>sint b\<bar> - 1}"
    using b by (intro smod_int_range) simp
  with b sint_64_bounds(2) [of b] have "- (2 ^ 63) \<le> sint a smod sint b" "sint a smod sint b < 2 ^ 63"
    by simp_all
  then show ?thesis by (simp add: int64_rem_def sint_word_of_int_64)
qed

subsection \<open>Time labels\<close>

lemma decimal_small: "n < 10 \<Longrightarrow> decimal n = [char_of (48 + n)]"
  by (subst decimal.simps) simp

lemma decimal_two: "10 \<le> n \<Longrightarrow> n < 100 \<Longrightarrow> decimal n = [char_of (48 + n div 10), char_of (48 + n mod 10)]"
  by (subst decimal.simps) (simp add: decimal_small)

text \<open>
  Claim C9.  \<^verbatim>\<open>formatTime\<close> joins the quotient and the remainder of the division by 60,
  each printed with \<^verbatim>\<open>%02d\<close>, by a colon; \<^verbatim>\<open>%02d\<close> prints a number below ten as a zero and
  its digit and a number from ten to ninety-nine as its two digits.  Hence \<open>02:05\<close> for 125,
  \<open>00:00\<close> for 0 and \<open>60:00\<close> for 3600.
\<close>

theorem formatTime_examples:
  "formatTime 125 = ''02:05'' \<and> formatTime 0 = ''00:00'' \<and> formatTime 3600 = ''60:00'' \<and>
   formatTime seconds = sprintf_02d (sint seconds sdiv 60) @ '':'' @ sprintf_02d (sint seconds smod 60) \<and>
   (0 \<le> n \<and> n < 10 \<longrightarrow> sprintf_02d n = [CHR ''0'', char_of (48 + nat n)]) \<and>
   (10 \<le> n \<and> n < 100 \<longrightarrow> sprintf_02d n = [char_of (48 + nat n div 10), char_of (48 + nat n mod 10)])"
proof (intro conjI impI)
  show "formatTime 125 = ''02:05''" by code_simp
  show "formatTime 0 = ''00:00''" by code_simp
  show "formatTime 3600 = ''60:00''" by code_simp
  have "sint (60 :: 64 word) = 60" by simp
  then show "formatTime seconds = sprintf_02d (sint seconds sdiv 60) @ '':'' @ sprintf_02d (sint seconds smod 60)"
    using sint_int64_div [of 60 seconds] sint_int64_rem [of 60 seconds]
    by (simp add: formatTime_def Let_def)
next
  assume a: "0 \<le> n \<and> n < 10"
  then have "decimal (nat n) = [char_of (48 + nat n)]"
    by (intro decimal_small) arith
  with a show "sprintf_02d n = [CHR ''0'', char_of (48 + nat n)]"
    by (simp add: sprintf_02d_def)
next
  assume a: "10 \<le> n \<and> n < 100"
  then have "decimal (nat n) = [char_of (48 + nat n div 10), char_of (48 + nat n mod 10)]"
    by (intro decimal_two) arith+
  with a show "sprintf_02d n = [char_of (48 + nat n div 10), char_of (48 + nat n mod 10)]"
    by (simp add: sprintf_02d_def)
qed

theorem formatTime_examples_witness:
  "sprintf_02d 5 = ''05'' \<and> sprintf_02d 60 = ''60'' \<and> formatTime 125 = ''02:05''"
proof -
  have c: "char_of (53 :: nat) = CHR ''5''" "char_of (54 :: nat) = CHR ''6''" "char_of (48 :: nat) = CHR ''0''"
    by code_simp+
  show ?thesis
    using formatTime_examples [of 125 5] formatTime_examples [of 125 60] c
    by simp
qed

subsection \<open>The metadata adapter\<close>

lemma dropWhile_eq_replicate:
  "s = replicate (length (takeWhile (\<lambda>c. c = q) s)) q @ dropWhile (\<lambda>c. c = q) s"
proof -
  have "\<forall>y \<in> set (takeWhile (\<lambda>c. c = q) s). y = q"
    by (auto dest: set_takeWhileD)
  then have "replicate (length (takeWhile (\<lambda>c. c = q) s)) q = takeWhile (\<lambda>c. c = q) s"
    by (rule replicate_length_same)
  then show ?thesis by simp
qed

lemma trim_quotes_decompose:
  "\<exists>i j. raw = replicate i dquote @ trim_quotes raw @ replicate j dquote"
proof -
  let ?P = "\<lambda>c. c = dquote"
  let ?u = "dropWhile ?P raw"
  obtain i where i: "raw = replicate i dquote @ ?u"
    using dropWhile_eq_replicate [of raw dquote] by blast
  obtain j where "rev ?u = replicate j dquote @ dropWhile ?P (rev ?u)"
    using dropWhile_eq_replicate [of "rev ?u" dquote] by blast
  then have "rev (rev ?u) = rev (replicate j dquote @ dropWhile ?P (rev ?u))"
    by simp
  then have "?u = trim_quotes raw @ replicate j dquote"
    by (simp add: trim_quotes_def)
  with i have "raw = replicate i dquote @ trim_quotes raw @ replicate j dquote"
    by simp
  then show ?thesis by blast
qed

lemma trim_quotes_ends:
  assumes "trim_quotes raw \<noteq> []"
  shows "hd (trim_quotes raw) \<noteq> dquote" and "last (trim_quotes raw) \<noteq> dquote"
proof -
  let ?P = "\<lambda>c. c = dquote"
  let ?u = "dropWhile ?P raw"
  let ?v = "dropWhile ?P (rev ?u)"
  have t: "trim_quotes raw = rev ?v" by (simp add: trim_quotes_def)
  with assms have v: "?v \<noteq> []" by simp
  then have "\<not> ?P (hd ?v)" by (rule hd_dropWhile)
  with v t show "last (trim_quotes raw) \<noteq> dquote"
    by (simp add: last_rev)
  have u: "?u \<noteq> []"
  proof
    assume "?u = []"
    then have "?v = dropWhile ?P (rev [])" by (simp only:)
    with v show False by simp
  qed
  then have hu: "\<not> ?P (hd ?u)" by (rule hd_dropWhile)
  have "rev ?u = takeWhile ?P (rev ?u) @ ?v" by simp
  then have "?u = rev ?v @ rev (takeWhile ?P (rev ?u))"
    by (metis rev_append rev_rev_ident)
  with v have "hd ?u = hd (rev ?v)"
    by (metis hd_append2 rev_is_Nil_conv)
  with hu t show "hd (trim_quotes raw) \<noteq> dquote" by simp
qed

lemma getMetadata_Inr:
  assumes "getMetadata vString b = Some (Inr md)"
  shows "\<exists>m pv l p artists.
           metadata_property b = Some (VDict m) \<and> position_property b = Some pv \<and>
           as_int64 (go_index m ''mpris:length'') = Some l \<and> as_int64 pv = Some p \<and>
           go_index m ''xesam:artist'' = VStrings artists \<and>
           md = \<lparr>Title = vString (go_index m ''xesam:title''),
                 Artist = (case artists of [] \<Rightarrow> ''Unknown Artist'' | a # _ \<Rightarrow> a),
                 Album = vString (go_index m ''xesam:album''),
                 Length = int64_div l 1000000,
                 Position = int64_div p 1000000,
                 ArtURL = (case m ''mpris:artUrl'' of None \<Rightarrow> [] | Some v \<Rightarrow> normalizeArtURL (vString v))\<rparr>"
proof -
  have V: "Variant_String vString v = Some s \<Longrightarrow> s = vString v" for v s
    by (auto simp add: Variant_String_def split: dbus_value.splits)
  from assms obtain m where m: "metadata_property b = Some (VDict m)"
    by (auto simp add: getMetadata_def split: option.splits dbus_value.splits)
  from assms m obtain pv where pv: "position_property b = Some pv"
    by (auto simp add: getMetadata_def split: option.splits)
  from assms m pv obtain l where l: "as_int64 (go_index m ''mpris:length'') = Some l"
    by (auto simp add: getMetadata_def split: option.splits)
  from assms m pv l obtain p where p: "as_int64 pv = Some p"
    by (auto simp add: getMetadata_def split: option.splits)
  from assms m pv l p obtain artists where a: "go_index m ''xesam:artist'' = VStrings artists"
    by (cases "go_index m ''xesam:artist''") (auto simp add: getMetadata_def)
  from assms m pv l p a
  have "md = \<lparr>Title = vString (go_index m ''xesam:title''),
                 Artist = (case artists of [] \<Rightarrow> ''Unknown Artist'' | a # _ \<Rightarrow> a),
                 Album = vString (go_index m ''xesam:album''),
                 Length = int64_div l 1000000,
                 Position = int64_div p 1000000,
                 ArtURL = (case m ''mpris:artUrl'' of None \<Rightarrow> [] | Some v \<Rightarrow> normalizeArtURL (vString v))\<rparr>"
    by (auto simp add: getMetadata_def split: option.splits dest!: V)
  with m pv l p a show ?thesis by blast
qed

text \<open>
  What the normalisation does to every raw text: it removes every leading and trailing
  double quote; if what is left starts with the CDN prefix it is the art reference; if it
  starts with \<^verbatim>\<open>file://\<close> the reference is what follows that prefix; otherwise the reference
  is empty.
\<close>

lemma normalizeArtURL_prefixes:
  shows "\<exists>i j. raw = replicate i dquote @ trim_quotes raw @ replicate j dquote"
    and "prefix ''https://i.scdn.co/image/'' (trim_quotes raw) \<Longrightarrow> normalizeArtURL raw = trim_quotes raw"
    and "prefix ''file://'' (trim_quotes raw) \<Longrightarrow> trim_quotes raw = ''file://'' @ normalizeArtURL raw"
    and "\<not> prefix ''https://i.scdn.co/image/'' (trim_quotes raw) \<Longrightarrow> \<not> prefix ''file://'' (trim_quotes raw) \<Longrightarrow>
           normalizeArtURL raw = []"
proof -
  show "\<exists>i j. raw = replicate i dquote @ trim_quotes raw @ replicate j dquote"
    by (rule trim_quotes_decompose)
next
  assume "prefix ''https://i.scdn.co/image/'' (trim_quotes raw)"
  then show "normalizeArtURL raw = trim_quotes raw"
    by (simp add: normalizeArtURL_def cdn_prefix_def Let_def)
next
  assume f: "prefix ''file://'' (trim_quotes raw)"
  then obtain rest where r: "trim_quotes raw = ''file://'' @ rest"
    by (auto simp add: prefix_def)
  then have "\<not> prefix cdn_prefix (trim_quotes raw)"
    by (simp add: cdn_prefix_def)
  with f r have "normalizeArtURL raw = rest"
    by (simp add: normalizeArtURL_def fileuri_prefix_def TrimPrefix_def Let_def)
  with r show "trim_quotes raw = ''file://'' @ normalizeArtURL raw" by simp
next
  assume "\<not> prefix ''https://i.scdn.co/image/'' (trim_quotes raw)" and "\<not> prefix ''file://'' (trim_quotes raw)"
  then show "normalizeArtURL raw = []"
    by (simp add: normalizeArtURL_def cdn_prefix_def fileuri_prefix_def Let_def)
qed

text \<open>
  The art reference of the record that \<^verbatim>\<open>main.go\<close> builds is the normalised entry, and empty
  when the dictionary has no \<^verbatim>\<open>mpris:artUrl\<close> key.  The shorter variant never returns on a
  dictionary without that key.
\<close>

lemma getMetadata_ArtURL:
  "getMetadata vString \<lparr>metadata_property = Some (VDict m), position_property = pv\<rparr> = Some (Inr md) \<Longrightarrow>
     ArtURL md = (case m ''mpris:artUrl'' of None \<Rightarrow> [] | Some v \<Rightarrow> normalizeArtURL (vString v))"
  using getMetadata_Inr [of vString "\<lparr>metadata_property = Some (VDict m), position_property = pv\<rparr>" md]
  by auto

lemma getMetadata_part000_absent_artUrl:
  "m ''mpris:artUrl'' = None \<Longrightarrow>
     getMetadata_part000 vString \<lparr>metadata_property = Some (VDict m), position_property = pv\<rparr> = None"
  by (simp add: getMetadata_part000_def go_index_def Variant_String_def Let_def split: dbus_value.splits)

text \<open>
  Claim C6 fails in the shorter variant on the absent field.  The dictionary of the example
  track has a title, an artist, an album and a length, and no \<^verbatim>\<open>mpris:artUrl\<close> entry.
  \<^verbatim>\<open>main.go\<close> tests for the key and returns a record with the empty art reference.  The
  shorter variant calls \<^verbatim>\<open>String()\<close> on the zero variant that the index yields, which
  panics, so it returns neither a record nor an error.  When the entry is present the two
  variants agree: a quoted CDN address is kept, a quoted \<^verbatim>\<open>file://\<close> address loses the prefix,
  and any other text gives the empty reference.
\<close>

theorem absent_art_url_part000_panics:
  "map_option (map_sum id ArtURL) (getMetadata example_vString example_bus_no_art) = Some (Inr []) \<and>
   getMetadata_part000 example_vString example_bus_no_art = None \<and>
   map_option (map_sum id ArtURL)
     (getMetadata example_vString
        (example_bus (VUint64 200000000) (VInt64 125000000) ''https://i.scdn.co/image/ab''))
     = Some (Inr ''https://i.scdn.co/image/ab'') \<and>
   map_option (map_sum id ArtURL)
     (getMetadata_part000 example_vString
        (example_bus (VUint64 200000000) (VInt64 125000000) ''https://i.scdn.co/image/ab''))
     = Some (Inr ''https://i.scdn.co/image/ab'') \<and>
   map_option (map_sum id ArtURL)
     (getMetadata example_vString (example_bus (VUint64 200000000) (VInt64 125000000) ''file:///a.png''))
     = Some (Inr ''/a.png'') \<and>
   map_option (map_sum id ArtURL)
     (getMetadata_part000 example_vString
        (example_bus (VUint64 200000000) (VInt64 125000000) ''file:///a.png''))
     = Some (Inr ''/a.png'') \<and>
   map_option (map_sum id ArtURL)
     (getMetadata example_vString
        (example_bus (VUint64 200000000) (VInt64 125000000) ''http://example.org/a.png''))
     = Some (Inr []) \<and>
   map_option (map_sum id ArtURL)
     (getMetadata_part000 example_vString
        (example_bus (VUint64 200000000) (VInt64 125000000) ''http://example.org/a.png''))
     = Some (Inr [])"
  by code_simp

lemma sint_64_shift: "sint v = (uint v + 2 ^ 63) mod 2 ^ 64 - 2 ^ 63" for v :: "64 word"
  by (simp add: sint_uint signed_take_bit_eq_take_bit_shift take_bit_eq_mod)

lemma sint_of_small_uint: "uint v < 2 ^ 63 \<Longrightarrow> sint v = uint v" for v :: "64 word"
proof -
  assume a: "uint v < 2 ^ 63"
  have "0 \<le> uint v" by simp
  with a have "(uint v + 2 ^ 63) mod 2 ^ 64 = uint v + 2 ^ 63"
    by (intro mod_pos_pos_trivial) simp_all
  then show ?thesis by (simp add: sint_64_shift)
qed

lemma sint_of_large_uint: "2 ^ 63 \<le> uint v \<Longrightarrow> sint v = uint v - 2 ^ 64" for v :: "64 word"
proof -
  assume a: "2 ^ 63 \<le> uint v"
  have b: "uint v < 2 ^ 64" using uint_bounded [of v] by simp
  have "uint v + 2 ^ 63 = uint v - 2 ^ 63 + 2 ^ 64"
    by simp
  then have "(uint v + 2 ^ 63) mod 2 ^ 64 = (uint v - 2 ^ 63 + 2 ^ 64) mod 2 ^ 64"
    by (simp only:)
  also have "\<dots> = (uint v - 2 ^ 63) mod 2 ^ 64"
    by (simp only: mod_add_self2)
  also have "\<dots> = uint v - 2 ^ 63"
    using a b by (intro mod_pos_pos_trivial) simp_all
  finally show ?thesis by (simp add: sint_64_shift)
qed

lemma sdiv_nonneg_iff: "0 < n \<Longrightarrow> 0 \<le> a sdiv n \<longleftrightarrow> - n < a" for a n :: int
proof (cases "0 \<le> a")
  case True
  assume "0 < n"
  with True show ?thesis by (simp add: sdiv_pos pos_imp_zdiv_nonneg_iff)
next
  case False
  assume n: "0 < n"
  have "(- a) div n \<le> 0 \<longleftrightarrow> - a < n"
    using n pos_imp_zdiv_pos_iff [of n "- a"] by linarith
  with False n show ?thesis by (simp add: sdiv_pos) linarith
qed

lemma getMetadata_part000_seconds:
  assumes "getMetadata_part000 vString b = Some (Inr md)"
  shows "\<exists>m. metadata_property b = Some (VDict m) \<and>
           sint (Length md) =
             (case as_int64 (go_index m ''mpris:length'') of None \<Rightarrow> 0 | Some l \<Rightarrow> sint l sdiv 1000000) \<and>
           sint (Position md) =
             (case as_int64 (case position_property b of None \<Rightarrow> VNil | Some v \<Rightarrow> v) of
                None \<Rightarrow> 0 | Some p \<Rightarrow> sint p sdiv 1000000)"
proof -
  have c: "0 < sint (1000000 :: 64 word)" by simp
  have d: "sint (int64_div v 1000000) = sint v sdiv 1000000" for v :: "64 word"
    using sint_int64_div [OF c, of v] by simp
  from assms obtain m where m: "metadata_property b = Some (VDict m)"
    by (auto simp add: getMetadata_part000_def split: option.splits dbus_value.splits)
  from assms m obtain artists where a: "go_index m ''xesam:artist'' = VStrings artists"
    by (cases "go_index m ''xesam:artist''") (auto simp add: getMetadata_part000_def Let_def)
  from assms m a have
    "sint (Length md) =
       (case as_int64 (go_index m ''mpris:length'') of None \<Rightarrow> 0 | Some l \<Rightarrow> sint l sdiv 1000000)"
    "sint (Position md) =
       (case as_int64 (case position_property b of None \<Rightarrow> VNil | Some v \<Rightarrow> v) of
          None \<Rightarrow> 0 | Some p \<Rightarrow> sint p sdiv 1000000)"
    by (auto simp add: getMetadata_part000_def Let_def d split: option.splits)
  with m show ?thesis by blast
qed

text \<open>
  Claim C8, as the code has it.  In both variants the length and the position of the record
  are the delivered value, read as a signed 64-bit integer, divided by 1,000,000 with
  truncation toward zero.  A signed value is taken as it is; an unsigned value keeps its
  bits, so from \<open>2\<^sup>6\<^sup>3\<close> on it is read as the value minus \<open>2\<^sup>6\<^sup>4\<close>.  The quotient is non-negative
  exactly when the signed reading is greater than -1,000,000.  \<^verbatim>\<open>main.go\<close> builds a record
  only when both values are of one of the two integer types; the shorter variant takes a
  value of any other type as zero.
\<close>

theorem getMetadata_seconds:
  "(getMetadata vString b = Some (Inr md) \<longrightarrow>
      (\<exists>m pv l p.
         metadata_property b = Some (VDict m) \<and> position_property b = Some pv \<and>
         as_int64 (go_index m ''mpris:length'') = Some l \<and> as_int64 pv = Some p \<and>
         sint (Length md) = sint l sdiv 1000000 \<and>
         sint (Position md) = sint p sdiv 1000000 \<and>
         (0 \<le> sint (Length md) \<longleftrightarrow> - 1000000 < sint l) \<and>
         (0 \<le> sint (Position md) \<longleftrightarrow> - 1000000 < sint p))) \<and>
   (getMetadata_part000 vString b = Some (Inr md) \<longrightarrow>
      (\<exists>m. metadata_property b = Some (VDict m) \<and>
         sint (Length md) =
           (case as_int64 (go_index m ''mpris:length'') of None \<Rightarrow> 0 | Some l \<Rightarrow> sint l sdiv 1000000) \<and>
         sint (Position md) =
           (case as_int64 (case position_property b of None \<Rightarrow> VNil | Some v \<Rightarrow> v) of
              None \<Rightarrow> 0 | Some p \<Rightarrow> sint p sdiv 1000000))) \<and>
   (0 \<le> sint v sdiv 1000000 \<longleftrightarrow> - 1000000 < sint v) \<and>
   as_int64 (VInt64 v) = Some v \<and> as_int64 (VUint64 v) = Some v \<and>
   (uint v < 2 ^ 63 \<longrightarrow> sint v = uint v) \<and>
   (2 ^ 63 \<le> uint v \<longrightarrow> sint v = uint v - 2 ^ 64)"
proof (intro conjI impI)
  assume "getMetadata vString b = Some (Inr md)"
  from getMetadata_Inr [OF this] obtain m pv l p where
    f: "metadata_property b = Some (VDict m)" "position_property b = Some pv"
      "as_int64 (go_index m ''mpris:length'') = Some l" "as_int64 pv = Some p"
    and len: "Length md = int64_div l 1000000" and pos: "Position md = int64_div p 1000000"
    by auto
  have c: "0 < sint (1000000 :: 64 word)" "sint (1000000 :: 64 word) = 1000000" by simp_all
  have sl: "sint (Length md) = sint l sdiv 1000000"
    using sint_int64_div [OF c(1), of l] len by simp
  have sp: "sint (Position md) = sint p sdiv 1000000"
    using sint_int64_div [OF c(1), of p] pos by simp
  have "0 \<le> sint (Length md) \<longleftrightarrow> - 1000000 < sint l"
    using sdiv_nonneg_iff [of 1000000 "sint l"] sl by simp
  moreover have "0 \<le> sint (Position md) \<longleftrightarrow> - 1000000 < sint p"
    using sdiv_nonneg_iff [of 1000000 "sint p"] sp by simp
  ultimately show "\<exists>m pv l p.
         metadata_property b = Some (VDict m) \<and> position_property b = Some pv \<and>
         as_int64 (go_index m ''mpris:length'') = Some l \<and> as_int64 pv = Some p \<and>
         sint (Length md) = sint l sdiv 1000000 \<and>
         sint (Position md) = sint p sdiv 1000000 \<and>
         (0 \<le> sint (Length md) \<longleftrightarrow> - 1000000 < sint l) \<and>
         (0 \<le> sint (Position md) \<longleftrightarrow> - 1000000 < sint p)"
    using f sl sp by blast
next
  assume "getMetadata_part000 vString b = Some (Inr md)"
  then show "\<exists>m. metadata_property b = Some (VDict m) \<and>
         sint (Length md) =
           (case as_int64 (go_index m ''mpris:length'') of None \<Rightarrow> 0 | Some l \<Rightarrow> sint l sdiv 1000000) \<and>
         sint (Position md) =
           (case as_int64 (case position_property b of None \<Rightarrow> VNil | Some v \<Rightarrow> v) of
              None \<Rightarrow> 0 | Some p \<Rightarrow> sint p sdiv 1000000)"
    by (rule getMetadata_part000_seconds)
next
  show "0 \<le> sint v sdiv 1000000 \<longleftrightarrow> - 1000000 < sint v"
    using sdiv_nonneg_iff [of 1000000 "sint v"] by simp
next
  show "as_int64 (VInt64 v) = Some v" and "as_int64 (VUint64 v) = Some v"
    by (simp_all add: as_int64_def)
next
  assume "uint v < 2 ^ 63"
  then show "sint v = uint v" by (rule sint_of_small_uint)
next
  assume "2 ^ 63 \<le> uint v"
  then show "sint v = uint v - 2 ^ 64" by (rule sint_of_large_uint)
qed

text \<open>
  A track of 200 seconds at 125 seconds, the length delivered unsigned and the position
  signed, in both variants; the unsigned values \<open>200000000\<close> and \<open>2\<^sup>6\<^sup>4 - 1\<close> read as signed.
\<close>

theorem getMetadata_seconds_witness:
  "map_option (map_sum id (\<lambda>md. (sint (Length md), sint (Position md))))
     (getMetadata example_vString (example_bus (VUint64 200000000) (VInt64 125000000) ''file:///a.png''))
     = Some (Inr (200, 125)) \<and>
   map_option (map_sum id (\<lambda>md. (sint (Length md), sint (Position md))))
     (getMetadata_part000 example_vString
        (example_bus (VUint64 200000000) (VInt64 125000000) ''file:///a.png''))
     = Some (Inr (200, 125)) \<and>
   sint (200000000 :: 64 word) = 200000000 \<and> sint (18446744073709551615 :: 64 word) = - 1"
proof -
  let ?b = "example_bus (VUint64 200000000) (VInt64 125000000) ''file:///a.png''"
  obtain md where g: "getMetadata example_vString ?b = Some (Inr md)"
    using example_metadata [of True] by (auto simp add: example_world_def)
  obtain md0 where g0: "getMetadata_part000 example_vString ?b = Some (Inr md0)"
    using example_metadata_part000 [of True] by (auto simp add: example_world_def)
  have u: "uint (200000000 :: 64 word) < 2 ^ 63" "2 ^ 63 \<le> uint (18446744073709551615 :: 64 word)"
    by simp_all
  obtain m pv l p where
    f: "metadata_property ?b = Some (VDict m)" "position_property ?b = Some pv"
      "as_int64 (go_index m ''mpris:length'') = Some l" "as_int64 pv = Some p"
      "sint (Length md) = sint l sdiv 1000000" "sint (Position md) = sint p sdiv 1000000"
    using getMetadata_seconds [of example_vString ?b md 0] g by blast
  from f(1,3) have "l = 200000000"
    by (auto simp add: example_bus_def go_index_def as_int64_def)
  moreover from f(2,4) have "p = 125000000"
    by (auto simp add: example_bus_def as_int64_def)
  ultimately have s: "sint (Length md) = 200" "sint (Position md) = 125"
    using f(5,6) by (simp_all add: signed_divide_int_def)
  obtain m0 where
    f0: "metadata_property ?b = Some (VDict m0)"
      "sint (Length md0) =
         (case as_int64 (go_index m0 ''mpris:length'') of None \<Rightarrow> 0 | Some l \<Rightarrow> sint l sdiv 1000000)"
      "sint (Position md0) =
         (case as_int64 (case position_property ?b of None \<Rightarrow> VNil | Some v \<Rightarrow> v) of
            None \<Rightarrow> 0 | Some p \<Rightarrow> sint p sdiv 1000000)"
    using getMetadata_seconds [of example_vString ?b md0 0] g0 by blast
  from f0(1) have "go_index m0 ''mpris:length'' = VUint64 200000000"
    by (auto simp add: example_bus_def go_index_def)
  with f0(2) have s1: "sint (Length md0) = 200"
    by (simp add: as_int64_def signed_divide_int_def)
  from f0(3) have s2: "sint (Position md0) = 125"
    by (simp add: example_bus_def as_int64_def signed_divide_int_def)
  show ?thesis
    using g g0 s s1 s2 u getMetadata_seconds [of example_vString ?b md 200000000]
      getMetadata_seconds [of example_vString ?b md 18446744073709551615]
    by simp
qed

text \<open>
  The claim as first stated, that both fields are never negative, fails in both variants.
  The track has a title, an artist, an album and an art URL; a signed length of minus five
  seconds and an unsigned position of \<open>2\<^sup>6\<^sup>3\<close> microseconds give a record with the length \<open>-5\<close>
  and the position \<open>-9223372036854\<close>.
\<close>

theorem getMetadata_negative_seconds:
  "map_option (map_sum id (\<lambda>md. (sint (Length md), sint (Position md))))
     (getMetadata example_vString
        (example_bus (VInt64 (- 5000000)) (VUint64 9223372036854775808) ''file:///a.png''))
     = Some (Inr (- 5, - 9223372036854)) \<and>
   map_option (map_sum id (\<lambda>md. (sint (Length md), sint (Position md))))
     (getMetadata_part000 example_vString
        (example_bus (VInt64 (- 5000000)) (VUint64 9223372036854775808) ''file:///a.png''))
     = Some (Inr (- 5, - 9223372036854))"
  by code_simp

subsection \<open>Rounding to binary64\<close>

lemma round_half_even_error: "\<bar>of_int (round_half_even y) - y\<bar> \<le> 1 / 2"
proof -
  have "of_int \<lfloor>y\<rfloor> \<le> y" and "y < of_int \<lfloor>y\<rfloor> + 1"
    by linarith+
  then show ?thesis
    by (auto simp add: round_half_even_def Let_def)
qed

lemma round_half_even_nonneg: "0 \<le> y \<Longrightarrow> 0 \<le> round_half_even y"
  by (auto simp add: round_half_even_def Let_def)

lemma binary_exponent_le:
  assumes "0 < x"
  shows "2 powi (binary_exponent x) \<le> x"
proof -
  obtain a b where q: "quotient_of x = (a, b)" by (cases "quotient_of x")
  then have b: "0 < b" by (rule quotient_of_denom_pos)
  from q have x: "x = of_int a / of_int b" by (rule quotient_of_div)
  with assms b have a: "0 < a" by (simp add: zero_less_divide_iff)
  let ?d = "bitlen a - bitlen b"
  show ?thesis
  proof (cases "2 powi ?d \<le> x")
    case True
    with q show ?thesis by (simp add: binary_exponent_def)
  next
    case False
    have la: "1 \<le> bitlen a" and lb: "1 \<le> bitlen b"
      using a b by (simp_all add: bitlen_alt_def)
    have "(2::int) ^ nat (bitlen a - 1) \<le> a"
      using bitlen_bounds [OF a] by simp
    then have "(of_int ((2::int) ^ nat (bitlen a - 1)) :: rat) \<le> of_int a"
      by (simp only: of_int_le_iff)
    then have 1: "(2::rat) ^ nat (bitlen a - 1) \<le> of_int a"
      by simp
    have "b < 2 ^ nat (bitlen b)"
      using bitlen_bounds [OF b] by simp
    then have "(of_int b :: rat) < of_int (2 ^ nat (bitlen b))"
      by (simp only: of_int_less_iff)
    then have 2: "(of_int b :: rat) \<le> 2 ^ nat (bitlen b)"
      by simp
    have "(2::rat) powi (?d - 1) = 2 powi (bitlen a - 1) / 2 powi (bitlen b)"
      by (simp add: power_int_diff)
    also have "\<dots> = 2 ^ nat (bitlen a - 1) / 2 ^ nat (bitlen b)"
      using la lb by (simp add: power_int_def)
    also have "\<dots> \<le> of_int a / 2 ^ nat (bitlen b)"
      using 1 by (simp add: divide_right_mono)
    also have "\<dots> \<le> of_int a / of_int b"
      using 2 a b by (simp add: frac_le)
    finally have "(2::rat) powi (?d - 1) \<le> x"
      using x by simp
    with False q show ?thesis by (simp add: binary_exponent_def)
  qed
qed

lemma round_binary64_nonneg: "0 \<le> x \<Longrightarrow> 0 \<le> round_binary64 x"
  by (simp add: round_binary64_def Let_def round_half_even_nonneg sgn_if)

lemma round_binary64_error:
  assumes "0 < x"
  shows "\<bar>round_binary64 x - x\<bar> \<le> x / 2 ^ 53"
proof -
  let ?e = "binary_exponent x"
  let ?s = "(2::rat) powi (?e - 52)"
  let ?m = "round_half_even (x / ?s)"
  have s: "0 < ?s" by simp
  have r: "round_binary64 x = of_int ?m * ?s"
    using assms by (simp add: round_binary64_def Let_def)
  have "round_binary64 x - x = (of_int ?m - x / ?s) * ?s"
    using s by (simp add: r left_diff_distrib)
  then have "\<bar>round_binary64 x - x\<bar> = \<bar>of_int ?m - x / ?s\<bar> * ?s"
    using s by (simp add: abs_mult)
  also have "\<dots> \<le> 1 / 2 * ?s"
    using s round_half_even_error [of "x / ?s"] by (intro mult_right_mono) simp_all
  also have "1 / 2 * ?s = 2 powi ?e / 2 ^ 53"
    by (simp add: power_int_diff)
  also have "\<dots> \<le> x / 2 ^ 53"
    using binary_exponent_le [OF assms] by (simp add: divide_right_mono)
  finally show ?thesis .
qed

lemma round_binary64_bounds:
  assumes "0 \<le> x"
  shows "x * (1 - 1 / 2 ^ 53) \<le> round_binary64 x" and "round_binary64 x \<le> x * (1 + 1 / 2 ^ 53)"
proof -
  have "x * (1 - 1 / 2 ^ 53) \<le> round_binary64 x \<and> round_binary64 x \<le> x * (1 + 1 / 2 ^ 53)"
  proof (cases "x = 0")
    case True
    then show ?thesis by (simp add: round_binary64_def)
  next
    case False
    with assms have "0 < x" by simp
    from round_binary64_error [OF this]
    have "round_binary64 x \<le> x + x / 2 ^ 53" and "x - x / 2 ^ 53 \<le> round_binary64 x"
      by linarith+
    moreover have "x * (1 + 1 / 2 ^ 53) = x + x / 2 ^ 53" and "x * (1 - 1 / 2 ^ 53) = x - x / 2 ^ 53"
      by (simp_all only: distrib_left right_diff_distrib mult_1_right times_divide_eq_right)
    ultimately show ?thesis by (simp only:)
  qed
  then show "x * (1 - 1 / 2 ^ 53) \<le> round_binary64 x" and "round_binary64 x \<le> x * (1 + 1 / 2 ^ 53)"
    by simp_all
qed

lemma round_binary64_pos: "0 < x \<Longrightarrow> 0 < round_binary64 x"
proof -
  assume x: "0 < x"
  then have "0 < x * (1 - 1 / 2 ^ 53)" by simp
  also have "\<dots> \<le> round_binary64 x" using x by (intro round_binary64_bounds) simp
  finally show ?thesis .
qed

lemma round_binary64_1: "round_binary64 1 = 1"
  by code_simp

lemma round_binary64_40: "round_binary64 40 = 40"
  by code_simp

lemma round_binary64_minus: "round_binary64 (- x) = - round_binary64 x"
  by (simp add: round_binary64_def Let_def)

lemma round_binary64_neg: "x < 0 \<Longrightarrow> round_binary64 x < 0"
  using round_binary64_pos [of "- x"] by (simp add: round_binary64_minus)

lemma round_binary64_0: "round_binary64 0 = 0"
  by (simp add: round_binary64_def)

text \<open>
  The relative error of the product: four roundings (two conversions, the quotient, the
  product), each within \<open>2\<^sup>-\<^sup>5\<^sup>3\<close>.
\<close>

lemma progress_value:
  fixes p l :: rat
  assumes p: "0 \<le> p" and l: "0 < l"
  defines "r \<equiv> round_binary64 (round_binary64 (round_binary64 p / round_binary64 l) * 40)"
  shows "0 \<le> r" and "\<bar>r - 40 * p / l\<bar> \<le> (40 * p / l) / 2 ^ 50"
proof -
  let ?U = "1 + 1 / 2 ^ 53 :: rat"
  let ?L = "1 - 1 / 2 ^ 53 :: rat"
  let ?a = "round_binary64 p" and ?b = "round_binary64 l"
  let ?q = "round_binary64 (?a / ?b)"
  have U: "0 < ?U" and L: "0 < ?L" by simp_all
  have a0: "0 \<le> ?a" using p by (rule round_binary64_nonneg)
  have b0: "0 < ?b" using l by (rule round_binary64_pos)
  have a1: "p * ?L \<le> ?a" and a2: "?a \<le> p * ?U"
    using p by (rule round_binary64_bounds)+
  have b1: "l * ?L \<le> ?b" and b2: "?b \<le> l * ?U"
    using l by (intro round_binary64_bounds, simp)+
  have ab0: "0 \<le> ?a / ?b" using a0 b0 by simp
  have q0: "0 \<le> ?q" using ab0 by (rule round_binary64_nonneg)
  have q1: "?a / ?b * ?L \<le> ?q" and q2: "?q \<le> ?a / ?b * ?U"
    using ab0 by (rule round_binary64_bounds)+
  have q40: "0 \<le> ?q * 40" using q0 by simp
  show r0: "0 \<le> r" unfolding r_def using q40 by (rule round_binary64_nonneg)
  have r1: "?q * 40 * ?L \<le> r" and r2: "r \<le> ?q * 40 * ?U"
    unfolding r_def using q40 by (rule round_binary64_bounds)+
  have lL: "0 < l * ?L" using l L by simp
  have pU: "0 \<le> p * ?U" using p U by simp
  have up1: "?a / ?b \<le> (p * ?U) / (l * ?L)"
    using pU a2 lL b1 by (rule frac_le)
  have lo1: "(p * ?L) / (l * ?U) \<le> ?a / ?b"
    using a0 a1 b0 b2 by (rule frac_le)
  have "r \<le> ?q * 40 * ?U" by (rule r2)
  also have "\<dots> \<le> (?a / ?b * ?U) * 40 * ?U"
    using q2 U by (simp add: mult_right_mono)
  also have "\<dots> \<le> ((p * ?U) / (l * ?L) * ?U) * 40 * ?U"
    using up1 U by (simp add: mult_right_mono)
  also have "\<dots> = (40 * p / l) * (?U * ?U * ?U / ?L)"
    by simp
  also have "\<dots> \<le> (40 * p / l) * (1 + 1 / 2 ^ 50)"
    using p l by (intro mult_left_mono) simp_all
  finally have upper: "r \<le> (40 * p / l) * (1 + 1 / 2 ^ 50)" .
  have "(40 * p / l) * (1 - 1 / 2 ^ 50) \<le> (40 * p / l) * (?L * ?L * ?L / ?U)"
    using p l by (intro mult_left_mono) simp_all
  also have "\<dots> = ((p * ?L) / (l * ?U) * ?L) * 40 * ?L"
    by simp
  also have "\<dots> \<le> (?a / ?b * ?L) * 40 * ?L"
    using lo1 L by (simp add: mult_right_mono)
  also have "\<dots> \<le> ?q * 40 * ?L"
    using q1 L by (simp add: mult_right_mono)
  also have "\<dots> \<le> r" by (rule r1)
  finally have lower: "(40 * p / l) * (1 - 1 / 2 ^ 50) \<le> r" .
  define X where "X = 40 * p / l"
  have "X * (1 + 1 / 2 ^ 50) = X + X / 2 ^ 50" and "X * (1 - 1 / 2 ^ 50) = X - X / 2 ^ 50"
    by (simp_all add: distrib_left right_diff_distrib)
  with upper lower have "r \<le> X + X / 2 ^ 50" and "X - X / 2 ^ 50 \<le> r"
    by (simp_all only: X_def [symmetric])
  then have "\<bar>r - X\<bar> \<le> X / 2 ^ 50"
    by (simp only: abs_le_iff) linarith
  then show "\<bar>r - 40 * p / l\<bar> \<le> (40 * p / l) / 2 ^ 50"
    by (simp only: X_def)
qed

lemma progress_product:
  assumes "0 < sint (Length md)"
  shows "float64_mul (float64_div (float64_of_int64 (Position md)) (float64_of_int64 (Length md)))
           (float64_of_int 40)
         = Finite (round_binary64 (round_binary64
             (round_binary64 (of_int (sint (Position md))) / round_binary64 (of_int (sint (Length md)))) * 40))"
proof -
  have "(0::rat) < of_int (sint (Length md))" using assms by (simp only: of_int_0_less_iff)
  then have "0 < round_binary64 (of_int (sint (Length md)))" by (rule round_binary64_pos)
  then show ?thesis
    by (simp add: float64_of_int64_def float64_of_int_def round_binary64_40 del: of_int_sint)
qed

lemma int_of_float64_floor:
  "0 \<le> r \<Longrightarrow> r < 2 ^ 63 \<Longrightarrow> int_of_float64 unrep (Finite r) = \<lfloor>r\<rfloor>"
proof -
  assume r: "0 \<le> r" "r < 2 ^ 63"
  then have "0 \<le> \<lfloor>r\<rfloor>" and "\<lfloor>r\<rfloor> < 2 ^ 63"
    by (simp_all add: floor_less_iff)
  with r show ?thesis by (simp add: int_of_float64_def)
qed

lemma sdiv_million_range: "\<bar>sint v sdiv 1000000\<bar> \<le> 9223372036854" for v :: "64 word"
proof (cases "0 \<le> sint v")
  case True
  have "sint v div 1000000 \<le> (2 ^ 63) div 1000000"
    using sint_64_bounds(2) [of v] by (intro zdiv_mono1) simp_all
  moreover have "0 \<le> sint v div 1000000"
    using True by (simp add: pos_imp_zdiv_nonneg_iff)
  ultimately show ?thesis using True by (simp add: sdiv_pos)
next
  case False
  have "(- sint v) div 1000000 \<le> (2 ^ 63) div 1000000"
    using sint_64_bounds(1) [of v] by (intro zdiv_mono1) simp_all
  moreover have "0 \<le> (- sint v) div 1000000"
    using False by (simp add: pos_imp_zdiv_nonneg_iff)
  ultimately show ?thesis using False by (simp add: sdiv_pos)
qed

lemma getMetadata_seconds_range:
  assumes "getMetadata vString b = Some (Inr md)"
  shows "\<bar>sint (Length md)\<bar> \<le> 9223372036854" and "\<bar>sint (Position md)\<bar> \<le> 9223372036854"
proof -
  have c: "0 < sint (1000000 :: 64 word)" by simp
  have r: "\<bar>sint (int64_div v 1000000)\<bar> \<le> 9223372036854" for v :: "64 word"
    using sint_int64_div [OF c, of v] sdiv_million_range [of v] by simp
  from getMetadata_Inr [OF assms] obtain l p where
    "Length md = int64_div l 1000000" and "Position md = int64_div p 1000000"
    by auto
  with r show "\<bar>sint (Length md)\<bar> \<le> 9223372036854" and "\<bar>sint (Position md)\<bar> \<le> 9223372036854"
    by simp_all
qed

lemma getMetadata_part000_seconds_range:
  assumes "getMetadata_part000 vString b = Some (Inr md)"
  shows "\<bar>sint (Length md)\<bar> \<le> 9223372036854" and "\<bar>sint (Position md)\<bar> \<le> 9223372036854"
proof -
  from getMetadata_part000_seconds [OF assms] obtain m where
    l: "sint (Length md) =
          (case as_int64 (go_index m ''mpris:length'') of None \<Rightarrow> 0 | Some l \<Rightarrow> sint l sdiv 1000000)"
    and p: "sint (Position md) =
          (case as_int64 (case position_property b of None \<Rightarrow> VNil | Some v \<Rightarrow> v) of
             None \<Rightarrow> 0 | Some p \<Rightarrow> sint p sdiv 1000000)"
    by blast
  show "\<bar>sint (Length md)\<bar> \<le> 9223372036854"
    unfolding l using sdiv_million_range by (simp split: option.splits)
  show "\<bar>sint (Position md)\<bar> \<le> 9223372036854"
    unfolding p using sdiv_million_range by (simp split: option.splits)
qed

text \<open>
  The shorter variant at length zero: the quotient is not a number or an infinity, and the
  fill count is whatever the conversion of that value to an integer yields, clamped.
\<close>

lemma drawProgressBar_progress_part000_zero_length:
  assumes "Length md = 0"
  shows "drawProgressBar_progress_part000 unrep md =
           max 0 (min 40 (unrep (if sint (Position md) = 0 then NaN
                                 else if 0 < sint (Position md) then PosInf else NegInf)))"
proof -
  define a where "a = round_binary64 (of_int (sint (Position md)))"
  have z: "float64_of_int64 (Length md) = Finite 0"
    using assms by (simp add: float64_of_int64_def round_binary64_0)
  have p: "float64_of_int64 (Position md) = Finite a"
    by (simp only: float64_of_int64_def a_def)
  have f: "float64_of_int 40 = Finite 40"
    by (simp add: float64_of_int_def round_binary64_40)
  consider (zero) "sint (Position md) = 0" | (pos) "0 < sint (Position md)" | (neg) "sint (Position md) < 0"
    by linarith
  then show ?thesis
  proof cases
    case zero
    then have "a = 0" by (simp only: a_def of_int_0 round_binary64_0)
    with zero show ?thesis
      by (simp add: drawProgressBar_progress_part000_def Let_def z p f int_of_float64_def)
  next
    case pos
    then have "(0::rat) < of_int (sint (Position md))" by (simp only: of_int_0_less_iff)
    then have "0 < a" unfolding a_def by (rule round_binary64_pos)
    with pos show ?thesis
      by (simp add: drawProgressBar_progress_part000_def Let_def z p f int_of_float64_def)
  next
    case neg
    then have "(of_int (sint (Position md)) :: rat) < 0" by (simp only: of_int_less_0_iff)
    then have "a < 0" unfolding a_def by (rule round_binary64_neg)
    with neg show ?thesis
      by (simp add: drawProgressBar_progress_part000_def Let_def z p f int_of_float64_def)
  qed
qed

lemma drawProgressBar_progress_part000_saturating:
  assumes "Length md = 0" and "0 < sint (Position md)" and "40 \<le> unrep PosInf"
  shows "drawProgressBar_progress_part000 unrep md = 40"
  using assms by (simp add: drawProgressBar_progress_part000_zero_length)

text \<open>
  At length zero \<^verbatim>\<open>drawProgressBar\<close> of \<^verbatim>\<open>main.go\<close> skips the division: the fill count is zero
  whatever the position and the conversion are, the bar is forty empty glyphs, and the
  function returns.
\<close>

lemma drawProgressBar_zero_length:
  assumes "Length metadata = 0"
  shows "drawProgressBar_progress unrep metadata = 0"
    and "drawProgressBar_bar unrep metadata = Some (replicate 40 Empty)"
    and "\<exists>out. drawProgressBar unrep metadata term = Some out \<and> PrintBar (replicate 40 Empty) \<in> set out"
proof -
  show p: "drawProgressBar_progress unrep metadata = 0"
    using assms by (simp add: drawProgressBar_progress_def)
  then show b: "drawProgressBar_bar unrep metadata = Some (replicate 40 Empty)"
    by (simp add: drawProgressBar_bar_eq)
  then show "\<exists>out. drawProgressBar unrep metadata term = Some out \<and> PrintBar (replicate 40 Empty) \<in> set out"
    by (simp add: drawProgressBar_def Let_def)
qed

text \<open>
  Claim C2 fails in the shorter variant.  The record has the length zero and the position
  125.  \<^verbatim>\<open>main.go\<close> tests the length, does not divide and draws forty empty glyphs, whatever
  the conversion is.  The shorter variant has no such test: it divides by zero, which in
  binary64 is no fault and gives the positive infinity, and converts that to an integer.
  Where the conversion saturates, the count is clamped to 40 and the bar is forty filled
  glyphs; where it yields the least integer, the count is clamped to zero.
\<close>

theorem zero_length_part000_full_bar:
  "drawProgressBar_progress saturating_unrep
     \<lparr>Title = ''Song'', Artist = ''Band'', Album = [], Length = 0, Position = 125, ArtURL = []\<rparr> = 0 \<and>
   drawProgressBar_bar saturating_unrep
     \<lparr>Title = ''Song'', Artist = ''Band'', Album = [], Length = 0, Position = 125, ArtURL = []\<rparr>
     = Some (replicate 40 Empty) \<and>
   float64_div (float64_of_int64 125) (float64_of_int64 0) = PosInf \<and>
   drawProgressBar_progress_part000 saturating_unrep
     \<lparr>Title = ''Song'', Artist = ''Band'', Album = [], Length = 0, Position = 125, ArtURL = []\<rparr> = 40 \<and>
   map_option (\<lambda>out. PrintBar (replicate 40 Filled) \<in> set out)
     (drawProgressBar_part000 saturating_unrep
        \<lparr>Title = ''Song'', Artist = ''Band'', Album = [], Length = 0, Position = 125, ArtURL = []\<rparr>
        (getTerminalSize_part000 (NewSpotifyDisplay ''/c'') (80, 24))) = Some True \<and>
   drawProgressBar_progress example_unrep
     \<lparr>Title = ''Song'', Artist = ''Band'', Album = [], Length = 0, Position = 125, ArtURL = []\<rparr> = 0 \<and>
   drawProgressBar_progress_part000 example_unrep
     \<lparr>Title = ''Song'', Artist = ''Band'', Album = [], Length = 0, Position = 125, ArtURL = []\<rparr> = 0"
  by code_simp

text \<open>
  Claim C3, as the code has it.  For a positive length and a position from zero to below
  \<open>2\<^sup>5\<^sup>7\<close> seconds, the product that both variants compute in binary64 is a finite number
  \<open>r\<close> within a relative error of \<open>2\<^sup>-\<^sup>5\<^sup>0\<close> of position / length * 40, and the fill count is
  the integer part of \<open>r\<close>, the fraction discarded, or 40 if that is less: it is truncated,
  not rounded to the nearest integer.  When position and length are equal the fill count is
  40 and the bar is forty filled glyphs.  Every record that \<^verbatim>\<open>getMetadata\<close> builds, in
  either variant, has a position below \<open>2\<^sup>5\<^sup>7\<close>.
\<close>

theorem progress_truncates:
  "(0 < sint (Length md) \<and> 0 \<le> sint (Position md) \<and> sint (Position md) < 2 ^ 57 \<longrightarrow>
      (\<exists>r. float64_mul (float64_div (float64_of_int64 (Position md)) (float64_of_int64 (Length md)))
                (float64_of_int 40) = Finite r \<and>
           \<bar>r - 40 * of_int (sint (Position md)) / of_int (sint (Length md))\<bar>
             \<le> (40 * of_int (sint (Position md)) / of_int (sint (Length md))) / 2 ^ 50 \<and>
           drawProgressBar_progress unrep md = min 40 \<lfloor>r\<rfloor> \<and>
           drawProgressBar_progress_part000 unrep md = min 40 \<lfloor>r\<rfloor>)) \<and>
   (0 < sint (Length md) \<and> Position md = Length md \<longrightarrow>
      drawProgressBar_progress unrep md = 40 \<and>
      drawProgressBar_progress_part000 unrep md = 40 \<and>
      drawProgressBar_bar unrep md = Some (replicate 40 Filled)) \<and>
   (getMetadata vString b = Some (Inr md) \<longrightarrow> sint (Position md) < 2 ^ 57) \<and>
   (getMetadata_part000 vString b = Some (Inr md) \<longrightarrow> sint (Position md) < 2 ^ 57)"
proof (intro conjI impI)
  assume h: "0 < sint (Length md) \<and> 0 \<le> sint (Position md) \<and> sint (Position md) < 2 ^ 57"
  define p :: rat where "p = of_int (sint (Position md))"
  define l :: rat where "l = of_int (sint (Length md))"
  define r where "r = round_binary64 (round_binary64 (round_binary64 p / round_binary64 l) * 40)"
  have "(of_int 0 :: rat) \<le> of_int (sint (Position md))"
    and "(of_int 1 :: rat) \<le> of_int (sint (Length md))"
    and "(of_int (sint (Position md)) :: rat) \<le> of_int (2 ^ 57)"
    using h by (simp_all only: of_int_le_iff) simp_all
  then have p: "0 \<le> p" and l: "1 \<le> l" and pu: "p \<le> 2 ^ 57"
    by (simp_all add: p_def l_def del: of_int_sint)
  have l0: "0 < l" using l by simp
  have r0: "0 \<le> r" and re: "\<bar>r - 40 * p / l\<bar> \<le> (40 * p / l) / 2 ^ 50"
    unfolding r_def using p l0 by (rule progress_value)+
  have "p / l \<le> p / 1" using p l by (intro divide_left_mono) simp_all
  with pu have "40 * p / l \<le> 40 * 2 ^ 57" by simp
  moreover have "0 \<le> 40 * p / l" using p l0 by simp
  moreover from re have "r \<le> 40 * p / l + (40 * p / l) / 2 ^ 50"
    by (simp only: abs_le_iff) linarith
  ultimately have ru: "r < 2 ^ 63" by simp
  have f: "float64_mul (float64_div (float64_of_int64 (Position md)) (float64_of_int64 (Length md)))
             (float64_of_int 40) = Finite r"
    using h by (simp add: progress_product r_def p_def l_def)
  define t where "t = \<lfloor>r\<rfloor>"
  have i: "int_of_float64 unrep (Finite r) = t"
    unfolding t_def using r0 ru by (rule int_of_float64_floor)
  have t0: "0 \<le> t" using r0 by (simp add: t_def)
  have m: "drawProgressBar_progress unrep md = min 40 t"
    using h t0 by (simp add: drawProgressBar_progress_def Let_def f i min_def)
  have m0: "drawProgressBar_progress_part000 unrep md = min 40 t"
    using t0 by (simp add: drawProgressBar_progress_part000_def Let_def f i min_def)
  show "\<exists>r. float64_mul (float64_div (float64_of_int64 (Position md)) (float64_of_int64 (Length md)))
                (float64_of_int 40) = Finite r \<and>
           \<bar>r - 40 * of_int (sint (Position md)) / of_int (sint (Length md))\<bar>
             \<le> (40 * of_int (sint (Position md)) / of_int (sint (Length md))) / 2 ^ 50 \<and>
           drawProgressBar_progress unrep md = min 40 \<lfloor>r\<rfloor> \<and>
           drawProgressBar_progress_part000 unrep md = min 40 \<lfloor>r\<rfloor>"
    using f re m m0 unfolding p_def l_def t_def by blast
next
  assume h: "0 < sint (Length md) \<and> Position md = Length md"
  define a where "a = round_binary64 (of_int (sint (Length md)))"
  have "(0::rat) < of_int (sint (Length md))" using h by (simp only: of_int_0_less_iff)
  then have a: "0 < a" unfolding a_def by (rule round_binary64_pos)
  then have e: "round_binary64 (round_binary64 (a / a) * 40) = 40"
    by (simp add: round_binary64_1 round_binary64_40)
  from h have pl: "Position md = Length md" and l: "0 < sint (Length md)" by simp_all
  have "float64_mul (float64_div (float64_of_int64 (Position md)) (float64_of_int64 (Length md)))
             (float64_of_int 40) = Finite (round_binary64 (round_binary64 (a / a) * 40))"
    using progress_product [OF l] by (simp only: pl a_def)
  with e have f: "float64_mul (float64_div (float64_of_int64 (Position md)) (float64_of_int64 (Length md)))
             (float64_of_int 40) = Finite 40"
    by (simp only:)
  have i: "int_of_float64 unrep (Finite 40) = 40"
    by (simp add: int_of_float64_def)
  show p: "drawProgressBar_progress unrep md = 40"
    using l by (simp add: drawProgressBar_progress_def Let_def f i)
  show "drawProgressBar_progress_part000 unrep md = 40"
    by (simp add: drawProgressBar_progress_part000_def Let_def f i)
  show "drawProgressBar_bar unrep md = Some (replicate 40 Filled)"
    by (simp add: drawProgressBar_bar_eq p)
next
  assume "getMetadata vString b = Some (Inr md)"
  then have "\<bar>sint (Position md)\<bar> \<le> 9223372036854"
    by (rule getMetadata_seconds_range)
  then show "sint (Position md) < 2 ^ 57" by simp
next
  assume "getMetadata_part000 vString b = Some (Inr md)"
  then have "\<bar>sint (Position md)\<bar> \<le> 9223372036854"
    by (rule getMetadata_part000_seconds_range)
  then show "sint (Position md) < 2 ^ 57" by simp
qed

text \<open>
  At 125 of 180 seconds the exact value is \<open>27.77...\<close>; the error bound leaves \<open>r\<close> between
  27 and 28, so the fill count is 27.  At 200 of 200 seconds the bar is full.
\<close>

theorem progress_truncates_witness:
  "drawProgressBar_progress example_unrep
     \<lparr>Title = ''Song'', Artist = ''Band'', Album = [], Length = 180, Position = 125, ArtURL = []\<rparr> = 27 \<and>
   drawProgressBar_bar example_unrep
     \<lparr>Title = ''Song'', Artist = ''Band'', Album = [], Length = 200, Position = 200, ArtURL = []\<rparr>
     = Some (replicate 40 Filled) \<and>
   map_option (map_sum id (\<lambda>md. sint (Position md) < 2 ^ 57))
     (getMetadata example_vString (example_bus (VUint64 200000000) (VInt64 125000000) ''file:///a.png''))
     = Some (Inr True) \<and>
   map_option (map_sum id (\<lambda>md. sint (Position md) < 2 ^ 57))
     (getMetadata_part000 example_vString
        (example_bus (VUint64 200000000) (VInt64 125000000) ''file:///a.png''))
     = Some (Inr True)"
proof -
  let ?md = "\<lparr>Title = ''Song'', Artist = ''Band'', Album = [], Length = 180, Position = 125, ArtURL = []\<rparr>"
  let ?md' = "\<lparr>Title = ''Song'', Artist = ''Band'', Album = [], Length = 200, Position = 200, ArtURL = []\<rparr>"
  have s: "sint (180 :: 64 word) = 180" "sint (125 :: 64 word) = 125" "sint (200 :: 64 word) = 200"
    by simp_all
  obtain r :: rat where e: "\<bar>r - 40 * 125 / 180\<bar> \<le> (40 * 125 / 180) / 2 ^ 50"
    and m: "drawProgressBar_progress example_unrep ?md = min 40 \<lfloor>r\<rfloor>"
    using progress_truncates [of ?md example_unrep] s by auto
  from e have e1: "r - 40 * 125 / 180 \<le> 40 * 125 / 180 / 2 ^ 50"
    and e2: "- (r - 40 * 125 / 180) \<le> 40 * 125 / 180 / 2 ^ 50"
    by (simp_all only: abs_le_iff)
  from e2 have "27 \<le> r" by simp
  moreover from e1 have "r < 28" by simp
  ultimately have "\<lfloor>r\<rfloor> = 27" by (simp add: floor_eq_iff)
  with m have "drawProgressBar_progress example_unrep ?md = 27" by simp
  moreover have "drawProgressBar_bar example_unrep ?md' = Some (replicate 40 Filled)"
    using progress_truncates [of ?md' example_unrep] s by simp
  moreover obtain md where g: "getMetadata example_vString
      (example_bus (VUint64 200000000) (VInt64 125000000) ''file:///a.png'') = Some (Inr md)"
    using example_metadata [of True] by (auto simp add: example_world_def)
  then have "sint (Position md) < 2 ^ 57"
    using progress_truncates [of md example_unrep example_vString
        "example_bus (VUint64 200000000) (VInt64 125000000) ''file:///a.png''"]
    by blast
  moreover obtain md0 where g0: "getMetadata_part000 example_vString
      (example_bus (VUint64 200000000) (VInt64 125000000) ''file:///a.png'') = Some (Inr md0)"
    using example_metadata_part000 [of True] by (auto simp add: example_world_def)
  then have "sint (Position md0) < 2 ^ 57"
    using progress_truncates [of md0 example_unrep example_vString
        "example_bus (VUint64 200000000) (VInt64 125000000) ''file:///a.png''"]
    by blast
  ultimately show ?thesis using g g0 by simp
qed

text \<open>
  The claim as first stated, with rounding to the nearest integer, fails at 125 of 180
  seconds: both variants fill 27 cells, and rounding \<open>27.77...\<close> gives 28.
\<close>

theorem progress_not_rounded:
  "drawProgressBar_progress example_unrep
     \<lparr>Title = ''Song'', Artist = ''Band'', Album = [], Length = 180, Position = 125, ArtURL = []\<rparr> = 27 \<and>
   drawProgressBar_progress_part000 example_unrep
     \<lparr>Title = ''Song'', Artist = ''Band'', Album = [], Length = 180, Position = 125, ArtURL = []\<rparr> = 27 \<and>
   spec_progress 125 180 = 28"
  by code_simp


end
